theory Spec2Isabelle
  imports Main "HOL-Library.Sublist"
begin

section \<open>generate_deployments_json: data model\<close>

text \<open>
  The values a YAML document gives to a key of an instance record: the scalars. The script
  tests the \<open>branch\<close> entry for truth and adds it to a set; a sequence or a mapping there
  is outside this model. The set is only tested for emptiness and for membership of a
  string, where Python's equality and HOL's agree (they differ on \<open>True\<close> and \<open>1\<close>).
\<close>

datatype pyval = PNone | PBool bool | PInt int | PStr string

fun truthy :: "pyval \<Rightarrow> bool" where
  "truthy PNone = False"
| "truthy (PBool b) = b"
| "truthy (PInt n) = (n \<noteq> 0)"
| "truthy (PStr s) = (s \<noteq> [])"

text \<open>
  \<open>config[instance]\<close> is a dict from key to value; \<open>config\<close> is a dict from instance name
  to such a record, kept as an association list in the order of iteration: the loop runs
  over its keys, indexing looks the key up. An instance whose value is not a mapping (the
  null of an empty \<open>main:\<close>, where \<open>'branch' in config[instance]\<close> raises TypeError) is
  outside this model: what is proved of a parsed file is proved of files whose instances
  are mappings.
\<close>

type_synonym instance_config = "string \<rightharpoonup> pyval"
type_synonym config = "(string \<times> instance_config) list"

datatype exn = GitCommandError | IndexError | KeyError | YAMLError | OSError | StopIteration

datatype level = INFO | WARNING | ERROR

text \<open>
  What a run does besides computing its result: the calls of the logger (level, format
  string, arguments) and the calls of the outside world, in the order they happen.
\<close>

datatype event =
    Log level string "string list"
  | Mkdtemp
  | Walk string
  | Listdir string
  | Read_service_information string
  | Ls_remote "string list"
  | Rmdir string

text \<open>
  The outside world: the file system, the YAML reader of service_configuration_lib and
  the git client. Each call either raises or returns; the world does not change during
  a run. In the order of the fields: \<open>tempfile.mkdtemp()\<close>,
  \<open>os.walk(soa_dir).next()[1]\<close>, \<open>os.listdir(working_dir)\<close>,
  \<open>service_configuration_lib.read_service_information(path)\<close>,
  \<open>mygit.ls_remote('-h', git_url)\<close> by its arguments, \<open>os.rmdir(tmp_dir)\<close>.
\<close>

record env =
  mkdtemp :: "exn + string"
  walk_dirs :: "string \<Rightarrow> exn + string list"
  listdir :: "string \<Rightarrow> exn + string list"
  read_service_information :: "string \<Rightarrow> exn + config"
  ls_remote :: "string list \<Rightarrow> exn + string"
  rmdir :: "string \<Rightarrow> exn + unit"

type_synonym 'a io = "event list \<times> (exn + 'a)"

definition ret :: "'a \<Rightarrow> 'a io" where
  "ret x = ([], Inr x)"

definition call :: "event \<Rightarrow> exn + 'a \<Rightarrow> 'a io" where
  "call ev r = ([ev], r)"

definition lift :: "exn + 'a \<Rightarrow> 'a io" where
  "lift r = ([], r)"

definition log_call :: "level \<Rightarrow> string \<Rightarrow> string list \<Rightarrow> unit io" where
  "log_call l fmt args = ([Log l fmt args], Inr ())"

definition io_bind :: "'a io \<Rightarrow> ('a \<Rightarrow> 'b io) \<Rightarrow> 'b io" where
  "io_bind m f =
     (case m of
        (t, Inl e) \<Rightarrow> (t, Inl e)
      | (t, Inr x) \<Rightarrow> (case f x of (t', r) \<Rightarrow> (t @ t', r)))"

definition exn_bind :: "exn + 'a \<Rightarrow> ('a \<Rightarrow> exn + 'b) \<Rightarrow> exn + 'b" where
  "exn_bind m f = (case m of Inl e \<Rightarrow> Inl e | Inr x \<Rightarrow> f x)"

section \<open>Python primitives\<close>

text \<open>\<open>xs[i]\<close> for a non-negative literal index: IndexError out of range.\<close>

definition py_index :: "'a list \<Rightarrow> nat \<Rightarrow> exn + 'a" where
  "py_index xs i = (if i < length xs then Inr (xs ! i) else Inl IndexError)"

text \<open>
  \<open>s.split(sep)\<close> for a non-empty separator: cut at each leftmost occurrence of sep,
  scanning on after it. \<open>cur\<close> is the piece being collected.
\<close>

function split_from :: "string \<Rightarrow> string \<Rightarrow> string \<Rightarrow> string list" where
  "split_from sep cur [] = [cur]"
| "split_from sep cur (c # cs) =
     (if sep \<noteq> [] \<and> prefix sep (c # cs)
      then cur # split_from sep [] (drop (length sep - 1) cs)
      else split_from sep (cur @ [c]) cs)"
  by pat_completeness auto
termination
  by (relation "measure (\<lambda>(sep, cur, s). length s)") auto

definition py_split :: "string \<Rightarrow> string \<Rightarrow> string list" where
  "py_split s sep = split_from sep [] s"

text \<open>\<open>sub in s\<close> on strings.\<close>

fun str_contains :: "string \<Rightarrow> string \<Rightarrow> bool" where
  "str_contains sub [] = (sub = [])"
| "str_contains sub (c # cs) = (prefix sub (c # cs) \<or> str_contains sub cs)"

text \<open>\<open>os.path.join(a, b)\<close> of posixpath.\<close>

definition path_join :: "string \<Rightarrow> string \<Rightarrow> string" where
  "path_join a b =
     (if prefix ''/'' b then b
      else if a = [] \<or> last a = CHR ''/'' then a @ b
      else a @ ''/'' @ b)"

definition tab :: string where
  "tab = [CHR 0x09]"

definition newline :: string where
  "newline = [CHR 0x0A]"

section \<open>The script\<close>

definition get_git_url :: "string \<Rightarrow> string" where
  "get_git_url service = ''git@git.yelpcorp.com:services/'' @ service @ ''.git''"

text \<open>\<open>filename.split('-')[1].split('.')[0]\<close>\<close>

definition filename_cluster :: "string \<Rightarrow> exn + string" where
  "filename_cluster filename =
     exn_bind (py_index (py_split filename ''-'') 1)
       (\<lambda>x. py_index (py_split x ''.'') 0)"

text \<open>
  The body of the loop of get_branches_from_marathon_file up to the test of
  \<open>target_branch\<close>: the value of \<open>target_branch\<close> for one instance record. Only an
  IndexError of the file name expression is caught, leaving None.
\<close>

definition target_branch_of :: "string \<Rightarrow> instance_config \<Rightarrow> exn + pyval" where
  "target_branch_of filename inst =
     (case inst ''branch'' of
        Some v \<Rightarrow> Inr v
      | None \<Rightarrow>
          (case inst ''docker_image'' of
             None \<Rightarrow>
               (case filename_cluster filename of
                  Inr t \<Rightarrow> Inr (PStr t)
                | Inl IndexError \<Rightarrow> Inr PNone
                | Inl e \<Rightarrow> Inl e)
           | Some _ \<Rightarrow> Inr PNone))"

text \<open>\<open>config[instance]\<close>\<close>

definition config_getitem :: "config \<Rightarrow> string \<Rightarrow> exn + instance_config" where
  "config_getitem cfg instance =
     (case map_of cfg instance of None \<Rightarrow> Inl KeyError | Some r \<Rightarrow> Inr r)"

fun marathon_file_loop ::
  "string \<Rightarrow> config \<Rightarrow> string list \<Rightarrow> pyval set \<Rightarrow> exn + pyval set" where
  "marathon_file_loop filename cfg [] valid_branches = Inr valid_branches"
| "marathon_file_loop filename cfg (instance # rest) valid_branches =
     exn_bind (config_getitem cfg instance) (\<lambda>inst.
     exn_bind (target_branch_of filename inst) (\<lambda>target_branch.
       marathon_file_loop filename cfg rest
         (if truthy target_branch then insert target_branch valid_branches
          else valid_branches)))"

definition get_branches_from_marathon_file :: "env \<Rightarrow> string \<Rightarrow> string \<Rightarrow> pyval set io" where
  "get_branches_from_marathon_file w file_dir filename =
     io_bind (call (Read_service_information (path_join file_dir filename))
                (read_service_information w (path_join file_dir filename)))
       (\<lambda>cfg. lift (marathon_file_loop filename cfg (map fst cfg) {}))"

fun service_files_loop ::
  "env \<Rightarrow> string \<Rightarrow> string list \<Rightarrow> pyval set \<Rightarrow> pyval set io" where
  "service_files_loop w working_dir [] valid_branches = ret valid_branches"
| "service_files_loop w working_dir (fname # rest) valid_branches =
     (if str_contains ''marathon-'' fname
      then io_bind (get_branches_from_marathon_file w working_dir fname)
             (\<lambda>bs. service_files_loop w working_dir rest (valid_branches \<union> bs))
      else service_files_loop w working_dir rest valid_branches)"

definition get_branches_for_service :: "env \<Rightarrow> string \<Rightarrow> string \<Rightarrow> pyval set io" where
  "get_branches_for_service w soa_dir service =
     io_bind (call (Listdir (path_join soa_dir service))
                (listdir w (path_join soa_dir service)))
       (\<lambda>files. service_files_loop w (path_join soa_dir service) files {})"

text \<open>
  One element of the list comprehension:
  \<open>(branch.split('\t')[0], branch.split('\t')[1].split('refs/heads/')[1])\<close>
\<close>

definition parse_branch_line :: "string \<Rightarrow> exn + (string \<times> string)" where
  "parse_branch_line branch =
     exn_bind (py_index (py_split branch tab) 0) (\<lambda>h.
     exn_bind (py_index (py_split branch tab) 1) (\<lambda>r.
     exn_bind (py_index (py_split r ''refs/heads/'') 1) (\<lambda>b.
       Inr (h, b))))"

fun parse_branch_lines :: "string list \<Rightarrow> exn + (string \<times> string) list" where
  "parse_branch_lines [] = Inr []"
| "parse_branch_lines (branch # rest) =
     exn_bind (parse_branch_line branch) (\<lambda>p.
     exn_bind (parse_branch_lines rest) (\<lambda>ps. Inr (p # ps)))"

text \<open>The body of the try block, then the handler for GitCommandError alone.\<close>

definition remote_branches_try :: "env \<Rightarrow> string \<Rightarrow> (string \<times> string) list io" where
  "remote_branches_try w service =
     io_bind (call (Ls_remote [''-h'', get_git_url service])
                (ls_remote w [''-h'', get_git_url service]))
       (\<lambda>out. lift (parse_branch_lines (py_split out newline)))"

definition get_remote_branches_for_service ::
  "env \<Rightarrow> string \<Rightarrow> (string \<times> string) list io" where
  "get_remote_branches_for_service w service =
     (case remote_branches_try w service of
        (t, Inl GitCommandError) \<Rightarrow>
          (t @ [Log WARNING
                  ''Service %s has branches, but the remote git repo is not named %s''
                  [service, service]],
           Inr [])
      | (t, r) \<Rightarrow> (t, r))"

definition get_service_directories :: "env \<Rightarrow> string \<Rightarrow> string list io" where
  "get_service_directories w soa_dir = call (Walk soa_dir) (walk_dirs w soa_dir)"

definition branch_alias_of :: "string \<Rightarrow> string \<Rightarrow> string" where
  "branch_alias_of service branch = service @ '':'' @ branch"

definition docker_image_of :: "string \<Rightarrow> string \<Rightarrow> string" where
  "docker_image_of service head = service @ '':'' @ take 6 head"

text \<open>The inner loop of get_branch_mappings, over the filtered remote branches.\<close>

fun mappings_loop ::
  "string \<Rightarrow> (string \<times> string) list \<Rightarrow> (string \<rightharpoonup> string) \<Rightarrow> (string \<rightharpoonup> string) io" where
  "mappings_loop service [] mappings = ret mappings"
| "mappings_loop service ((head, branch) # rest) mappings =
     io_bind (log_call INFO ''Mapping branch %s to docker image %s''
                [branch_alias_of service branch, docker_image_of service head])
       (\<lambda>_. mappings_loop service rest
               (mappings(branch_alias_of service branch \<mapsto> docker_image_of service head)))"

text \<open>The outer loop of get_branch_mappings, over the service directories.\<close>

fun services_loop ::
  "env \<Rightarrow> string \<Rightarrow> string list \<Rightarrow> (string \<rightharpoonup> string) \<Rightarrow> (string \<rightharpoonup> string) io" where
  "services_loop w soa_dir [] mappings = ret mappings"
| "services_loop w soa_dir (service # rest) mappings =
     io_bind (log_call INFO ''Examining service %s'' [service]) (\<lambda>_.
     io_bind (get_branches_for_service w soa_dir service) (\<lambda>valid_branches.
       if valid_branches = {}
       then io_bind (log_call INFO ''Service %s has no branches.'' [service])
              (\<lambda>_. services_loop w soa_dir rest mappings)
       else
         io_bind (get_remote_branches_for_service w service) (\<lambda>remote_branches.
         io_bind (mappings_loop service
                    (filter (\<lambda>(head, branch). PStr branch \<in> valid_branches) remote_branches)
                    mappings)
           (\<lambda>mappings'. services_loop w soa_dir rest mappings'))))"

text \<open>\<open>os.rmdir(tmp_dir)\<close> in its try block: an OSError is logged, nothing else is caught.\<close>

definition remove_tmp_dir :: "env \<Rightarrow> string \<Rightarrow> unit io" where
  "remove_tmp_dir w tmp_dir =
     (case call (Rmdir tmp_dir) (rmdir w tmp_dir) of
        (t, Inl OSError) \<Rightarrow>
          (t @ [Log ERROR ''Failed to remove temporary directory %s'' [tmp_dir]], Inr ())
      | (t, r) \<Rightarrow> (t, r))"

definition get_branch_mappings :: "env \<Rightarrow> string \<Rightarrow> (string \<rightharpoonup> string) io" where
  "get_branch_mappings w soa_dir =
     io_bind (call Mkdtemp (mkdtemp w)) (\<lambda>tmp_dir.
     io_bind (get_service_directories w soa_dir) (\<lambda>services.
     io_bind (services_loop w soa_dir services Map.empty) (\<lambda>mappings.
     io_bind (remove_tmp_dir w tmp_dir) (\<lambda>_.
       ret mappings))))"

section \<open>Notions used to state the properties\<close>

text \<open>
  What the instance \<open>k\<close> of a parsed file adds to the set of branches: its
  \<open>target_branch\<close>, when that is truthy.
\<close>

definition contribution :: "string \<Rightarrow> config \<Rightarrow> string \<Rightarrow> pyval set" where
  "contribution f cfg k =
     {v. \<exists>r. map_of cfg k = Some r \<and> target_branch_of f r = Inr v \<and> truthy v}"

text \<open>
  The same document with one instance removed, the world where a path holds a given
  document, and the world where a directory has given service directories.
\<close>

definition without_instance :: "string \<Rightarrow> config \<Rightarrow> config" where
  "without_instance instance cfg = filter (\<lambda>p. fst p \<noteq> instance) cfg"

definition with_config :: "env \<Rightarrow> string \<Rightarrow> config \<Rightarrow> env" where
  "with_config w path cfg =
     w\<lparr>read_service_information := (read_service_information w)(path := Inr cfg)\<rparr>"

definition with_services :: "env \<Rightarrow> string \<Rightarrow> string list \<Rightarrow> env" where
  "with_services w soa_dir services =
     w\<lparr>walk_dirs := (walk_dirs w)(soa_dir := Inr services)\<rparr>"

text \<open>The paths handed to the YAML reader, in order, and the files the test lets through.\<close>

fun read_paths :: "event list \<Rightarrow> string list" where
  "read_paths [] = []"
| "read_paths (Read_service_information p # tr) = p # read_paths tr"
| "read_paths (_ # tr) = read_paths tr"

definition marathon_files :: "string list \<Rightarrow> string list" where
  "marathon_files files = filter (sublist ''marathon-'') files"

text \<open>
  The key and value that the inner loop of get_branch_mappings inserts for a pair
  \<open>(head, branch)\<close>, the pairs of a listing that pass the filter, and the events the
  script logs: on entering a service, before an insertion, on a git command error.
\<close>

definition insertion_of :: "string \<Rightarrow> string \<times> string \<Rightarrow> string \<times> string" where
  "insertion_of service p = (branch_alias_of service (snd p), docker_image_of service (fst p))"

definition tracked_refs :: "pyval set \<Rightarrow> (string \<times> string) list \<Rightarrow> (string \<times> string) list" where
  "tracked_refs bs refs = filter (\<lambda>p. PStr (snd p) \<in> bs) refs"

definition examining :: "string \<Rightarrow> event" where
  "examining s = Log INFO ''Examining service %s'' [s]"

definition mapping_logs :: "string \<Rightarrow> (string \<times> string) list \<Rightarrow> event list" where
  "mapping_logs service refs =
     map (\<lambda>p. Log INFO ''Mapping branch %s to docker image %s''
                 [fst (insertion_of service p), snd (insertion_of service p)]) refs"

definition repo_warning :: "string \<Rightarrow> event" where
  "repo_warning service =
     Log WARNING ''Service %s has branches, but the remote git repo is not named %s''
       [service, service]"

text \<open>
  The insertions of a run, read off its log: \<open>log.info('Mapping branch %s to docker image
  %s', branch_alias, docker_image)\<close> comes right before \<open>mappings[branch_alias] =
  docker_image\<close> and nowhere else.
\<close>

fun logged_insertions :: "event list \<Rightarrow> (string \<times> string) list" where
  "logged_insertions [] = []"
| "logged_insertions (Log l fmt [a, d] # tr) =
     (if l = INFO \<and> fmt = ''Mapping branch %s to docker image %s''
      then (a, d) # logged_insertions tr else logged_insertions tr)"
| "logged_insertions (_ # tr) = logged_insertions tr"

section \<open>Example inputs\<close>

text \<open>
  A world with no service directories, and instance documents: an instance pinned to a
  docker image, one with an empty \<open>branch\<close>, one with no keys at all.
\<close>

definition world0 :: env where
  "world0 = \<lparr>mkdtemp = Inr ''/tmp/tmpAbCdEf'',
             walk_dirs = (\<lambda>_. Inr []),
             listdir = (\<lambda>_. Inr []),
             read_service_information = (\<lambda>_. Inr []),
             ls_remote = (\<lambda>_. Inl GitCommandError),
             rmdir = (\<lambda>_. Inr ())\<rparr>"

definition pinned_config :: config where
  "pinned_config = [(''main'', [''docker_image'' \<mapsto> PStr ''services-paasta_test:v1''])]"

definition falsy_config :: config where
  "falsy_config = [(''main'', [''branch'' \<mapsto> PStr ''''])]"

definition bare_config :: config where
  "bare_config = [(''main'', Map.empty)]"

text \<open>A service directory with a file whose name only contains \<open>marathon-\<close>.\<close>

definition two_files_world :: env where
  "two_files_world =
     world0\<lparr>walk_dirs := (\<lambda>_. Inr [''svc'']),
            listdir := (\<lambda>_. Inr [''not-a-marathon-devc.yaml'', ''README.md'']),
            read_service_information := (\<lambda>_. Inr bare_config)\<rparr>"


text \<open>A service whose remote exists and has no branches: git ls-remote prints nothing.\<close>

definition empty_remote_world :: env where
  "empty_remote_world =
     world0\<lparr>walk_dirs := (\<lambda>_. Inr [''svc'']),
            listdir := (\<lambda>_. Inr [''marathon-devc.yaml'']),
            read_service_information := (\<lambda>_. Inr bare_config),
            ls_remote := (\<lambda>_. Inr [])\<rparr>"

text \<open>
  Two services tracking \<open>release\<close>: the repository of the first is not named after it,
  the remote of the second has the branches release and master.
\<close>

definition release_world :: env where
  "release_world =
     world0\<lparr>walk_dirs := (\<lambda>_. Inr [''drifted'', ''svc'']),
            listdir := (\<lambda>_. Inr [''marathon-devc.yaml'']),
            read_service_information := (\<lambda>_. Inr [(''main'', [''branch'' \<mapsto> PStr ''release''])]),
            ls_remote :=
              (\<lambda>args. if args = [''-h'', ''git@git.yelpcorp.com:services/svc.git'']
                      then Inr (''abcdef0123456789'' @ [CHR 0x09] @ ''refs/heads/release'' @
                                [CHR 0x0A] @
                                ''0123456789abcdef'' @ [CHR 0x09] @ ''refs/heads/master'')
                      else Inl GitCommandError)\<rparr>"

text \<open>
  A configuration file for the cluster norcal-devc, its instance with neither \<open>branch\<close> nor
  \<open>docker_image\<close>, and a remote whose only branch is norcal-devc.
\<close>

definition plain_config :: config where
  "plain_config = [(''main'', [''instances'' \<mapsto> PInt 3])]"

definition hyphen_cluster_world :: env where
  "hyphen_cluster_world =
     world0\<lparr>walk_dirs := (\<lambda>_. Inr [''svc'']),
            listdir := (\<lambda>_. Inr [''marathon-norcal-devc.yaml'']),
            read_service_information := (\<lambda>_. Inr plain_config),
            ls_remote :=
              (\<lambda>_. Inr (''abcdef0123456789abcdef0123456789abcdef01'' @ [CHR 0x09] @
                        ''refs/heads/norcal-devc''))\<rparr>"

text \<open>
  An instance tracking the branch x/refs/heads/y, and a remote whose only branch it is:
  git ls-remote prints the commit, a tab and \<open>refs/heads/x/refs/heads/y\<close>.
\<close>

definition slashed_branch_world :: env where
  "slashed_branch_world =
     world0\<lparr>walk_dirs := (\<lambda>_. Inr [''svc'']),
            listdir := (\<lambda>_. Inr [''marathon-devc.yaml'']),
            read_service_information :=
              (\<lambda>_. Inr [(''main'', [''branch'' \<mapsto> PStr ''x/refs/heads/y''])]),
            ls_remote :=
              (\<lambda>_. Inr (''1111112222333344445555666677778888999900'' @ [CHR 0x09] @
                        ''refs/heads/x/refs/heads/y''))\<rparr>"

text \<open>A remote with the branches x/refs/heads/y and x/refs/heads/z, the instance tracking \<open>x/\<close>.\<close>

definition nested_refs_world :: env where
  "nested_refs_world =
     world0\<lparr>walk_dirs := (\<lambda>_. Inr [''svc'']),
            listdir := (\<lambda>_. Inr [''marathon-devc.yaml'']),
            read_service_information := (\<lambda>_. Inr [(''main'', [''branch'' \<mapsto> PStr ''x/''])]),
            ls_remote :=
              (\<lambda>_. Inr (''111111aaaa'' @ [CHR 0x09] @ ''refs/heads/x/refs/heads/y'' @
                        [CHR 0x0A] @
                        ''222222bbbb'' @ [CHR 0x09] @ ''refs/heads/x/refs/heads/z''))\<rparr>"

section \<open>Lemmas\<close>

subsection \<open>Splitting strings\<close>

lemma split_from_absent:
  "c \<notin> set s \<Longrightarrow> split_from [c] cur s = [cur @ s]"
  by (induction s arbitrary: cur) auto

lemma py_index_error: "py_index xs i = Inl e \<Longrightarrow> e = IndexError"
  by (simp add: py_index_def split: if_splits)

lemma filename_cluster_error: "filename_cluster f = Inl e \<Longrightarrow> e = IndexError"
  by (auto simp: filename_cluster_def exn_bind_def split: sum.splits dest: py_index_error)

subsection \<open>The loop over the instances of a file\<close>

lemma target_branch_of_total: "\<exists>v. target_branch_of f r = Inr v"
  by (auto simp: target_branch_of_def split: option.splits sum.splits exn.splits
      dest: filename_cluster_error)

lemma marathon_file_loop_char:
  "set keys \<subseteq> fst ` set cfg \<Longrightarrow>
   marathon_file_loop f cfg keys vb = Inr (vb \<union> (\<Union>k\<in>set keys. contribution f cfg k))"
proof (induction keys arbitrary: vb)
  case Nil
  then show ?case by simp
next
  case (Cons k keys)
  from Cons.prems have "k \<in> fst ` set cfg" by simp
  then obtain r where r: "map_of cfg k = Some r"
    by (metis domD dom_map_of_conv_image_fst)
  obtain v where v: "target_branch_of f r = Inr v"
    using target_branch_of_total by blast
  have c: "contribution f cfg k = (if truthy v then {v} else {})"
    using r v by (auto simp: contribution_def)
  from Cons.prems have "set keys \<subseteq> fst ` set cfg" by simp
  from Cons.IH [OF this] r v c show ?case
    by (auto simp: config_getitem_def exn_bind_def)
qed

lemma io_bind_Inr [simp]: "io_bind (t, Inr x) f = (t @ fst (f x), snd (f x))"
  by (simp add: io_bind_def split: prod.splits)

lemma io_bind_Inl [simp]: "io_bind (t, Inl e) f = (t, Inl e)"
  by (simp add: io_bind_def)

lemma get_branches_from_marathon_file_read:
  assumes "read_service_information w (path_join file_dir filename) = Inr cfg"
  shows "get_branches_from_marathon_file w file_dir filename =
           ([Read_service_information (path_join file_dir filename)],
            Inr (\<Union>k\<in>fst ` set cfg. contribution filename cfg k))"
  using marathon_file_loop_char [of "map fst cfg" cfg filename "{}"] assms
  by (simp add: get_branches_from_marathon_file_def call_def lift_def)

lemma map_of_without_instance:
  "k \<noteq> i \<Longrightarrow> map_of (without_instance i cfg) k = map_of cfg k"
  by (induction cfg) (auto simp: without_instance_def)

lemma contribution_without_instance:
  "k \<noteq> i \<Longrightarrow> contribution f (without_instance i cfg) k = contribution f cfg k"
  by (simp add: contribution_def map_of_without_instance)

lemma keys_without_instance:
  "fst ` set (without_instance i cfg) = fst ` set cfg - {i}"
  by (auto simp: without_instance_def)

lemma silent_instance:
  assumes "read_service_information w (path_join file_dir filename) = Inr cfg"
    and "contribution filename cfg instance = {}"
  shows "get_branches_from_marathon_file w file_dir filename =
         get_branches_from_marathon_file
           (with_config w (path_join file_dir filename) (without_instance instance cfg))
           file_dir filename"
proof -
  let ?p = "path_join file_dir filename"
  let ?w = "with_config w ?p (without_instance instance cfg)"
  have r: "read_service_information ?w ?p = Inr (without_instance instance cfg)"
    by (simp add: with_config_def)
  have "(\<Union>k\<in>fst ` set cfg. contribution filename cfg k) =
        (\<Union>k\<in>fst ` set cfg - {instance}. contribution filename cfg k)"
    using assms(2) by auto
  also have "\<dots> = (\<Union>k\<in>fst ` set (without_instance instance cfg).
                      contribution filename (without_instance instance cfg) k)"
    by (simp add: keys_without_instance contribution_without_instance)
  finally show ?thesis
    by (simp add: get_branches_from_marathon_file_read [OF assms(1)]
        get_branches_from_marathon_file_read [OF r])
qed

lemmas eval_simps =
  get_branches_from_marathon_file_def call_def lift_def ret_def log_call_def
  config_getitem_def target_branch_of_def filename_cluster_def py_split_def py_index_def
  exn_bind_def path_join_def with_config_def without_instance_def world0_def

subsection \<open>The loop over the files of a service\<close>

lemma str_contains_sublist: "str_contains sub s = sublist sub s"
  by (induction s) (auto simp: sublist_Cons_right)

lemma get_branches_from_marathon_file_trace:
  "fst (get_branches_from_marathon_file w d f) = [Read_service_information (path_join d f)]"
  by (cases "read_service_information w (path_join d f)")
    (simp_all add: get_branches_from_marathon_file_def call_def lift_def)


lemma service_files_loop_reads:
  "service_files_loop w d files vb = (tr, r) \<Longrightarrow>
   prefix (read_paths tr) (map (path_join d) (marathon_files files)) \<and>
   ((\<exists>bs. r = Inr bs) \<longrightarrow> read_paths tr = map (path_join d) (marathon_files files))"
proof (induction files arbitrary: vb tr r)
  case Nil
  then show ?case by (simp add: ret_def marathon_files_def)
next
  case (Cons f files)
  show ?case
  proof (cases "sublist ''marathon-'' f")
    case False
    with Cons show ?thesis by (simp add: str_contains_sublist marathon_files_def)
  next
    case True
    obtain x where g: "get_branches_from_marathon_file w d f = ([Read_service_information (path_join d f)], x)"
      using get_branches_from_marathon_file_trace [of w d f] by (cases "get_branches_from_marathon_file w d f") auto
    show ?thesis
    proof (cases x)
      case (Inl e)
      with g True Cons.prems show ?thesis
        by (auto simp: str_contains_sublist marathon_files_def)
    next
      case (Inr bs)
      obtain t' r' where l: "service_files_loop w d files (vb \<union> bs) = (t', r')"
        by (cases "service_files_loop w d files (vb \<union> bs)") auto
      from Cons.IH [OF l] g True Cons.prems Inr l show ?thesis
        by (auto simp: str_contains_sublist marathon_files_def)
    qed
  qed
qed

lemma service_files_loop_result:
  "service_files_loop w d files vb = (tr, Inr bs) \<Longrightarrow>
   bs = vb \<union> \<Union>{s. \<exists>f\<in>set (marathon_files files). snd (get_branches_from_marathon_file w d f) = Inr s}"
proof (induction files arbitrary: vb tr)
  case Nil
  then show ?case by (simp add: ret_def marathon_files_def)
next
  case (Cons f files)
  show ?case
  proof (cases "sublist ''marathon-'' f")
    case False
    with Cons show ?thesis by (simp add: str_contains_sublist marathon_files_def)
  next
    case True
    obtain t x where g: "get_branches_from_marathon_file w d f = (t, x)"
      by (cases "get_branches_from_marathon_file w d f") auto
    show ?thesis
    proof (cases x)
      case (Inl e)
      with g True Cons.prems show ?thesis
        by (auto simp: str_contains_sublist)
    next
      case (Inr s)
      obtain t' where l: "service_files_loop w d files (vb \<union> s) = (t', Inr bs)"
        using g True Cons.prems Inr
        by (cases "service_files_loop w d files (vb \<union> s)") (auto simp: str_contains_sublist)
      have "{s'. \<exists>f'\<in>set (marathon_files (f # files)). snd (get_branches_from_marathon_file w d f') = Inr s'}
            = insert s {s'. \<exists>f'\<in>set (marathon_files files). snd (get_branches_from_marathon_file w d f') = Inr s'}"
        using True g Inr by (auto simp: marathon_files_def)
      with Cons.IH [OF l] show ?thesis by auto
    qed
  qed
qed


subsection \<open>Sequencing\<close>

lemma io_bind_assoc: "io_bind (io_bind m f) g = io_bind m (\<lambda>x. io_bind (f x) g)"
  by (auto simp: io_bind_def split: prod.splits sum.splits)

lemma io_bind_ret: "io_bind m ret = m"
  by (auto simp: io_bind_def ret_def split: prod.splits sum.splits)

lemma io_bind_ret_left: "io_bind (ret x) f = f x"
  by (cases "f x") (simp add: io_bind_def ret_def)

lemma io_bind_if: "io_bind (if b then m else n) g = (if b then io_bind m g else io_bind n g)"
  by simp

subsection \<open>The loop over the services, one service at a time\<close>

lemma services_loop_Nil: "services_loop w soa [] = ret"
  by (rule ext) simp

lemma services_loop_Cons:
  "services_loop w soa (s # rest) m =
   io_bind (services_loop w soa [s] m) (services_loop w soa rest)"
proof -
  have "services_loop w soa [s] m =
     io_bind (log_call INFO ''Examining service %s'' [s]) (\<lambda>_.
     io_bind (get_branches_for_service w soa s) (\<lambda>valid_branches.
       if valid_branches = {}
       then io_bind (log_call INFO ''Service %s has no branches.'' [s]) (\<lambda>_. ret m)
       else
         io_bind (get_remote_branches_for_service w s) (\<lambda>remote_branches.
         io_bind (mappings_loop s
                    (filter (\<lambda>(head, branch). PStr branch \<in> valid_branches) remote_branches) m)
           ret)))"
    by (simp add: services_loop_Nil cong: if_cong)
  then show ?thesis
    by (simp add: io_bind_assoc io_bind_if io_bind_ret io_bind_ret_left
        del: io_bind_Inr io_bind_Inl services_loop.simps(1) cong: if_cong)
qed

lemma services_loop_append:
  "services_loop w soa (xs @ ys) m =
   io_bind (services_loop w soa xs m) (services_loop w soa ys)"
proof (induction xs arbitrary: m)
  case Nil
  then show ?case by (simp add: io_bind_ret_left del: io_bind_Inr io_bind_Inl)
next
  case (Cons x xs)
  have "services_loop w soa ((x # xs) @ ys) m =
        io_bind (services_loop w soa [x] m) (services_loop w soa (xs @ ys))"
    using services_loop_Cons [of w soa x "xs @ ys" m] by (simp del: services_loop.simps)
  also have "\<dots> = io_bind (services_loop w soa [x] m)
                      (\<lambda>m'. io_bind (services_loop w soa xs m') (services_loop w soa ys))"
  proof -
    have "services_loop w soa (xs @ ys) =
          (\<lambda>m'. io_bind (services_loop w soa xs m') (services_loop w soa ys))"
      by (rule ext) (rule Cons.IH)
    then show ?thesis by (simp only:)
  qed
  also have "\<dots> = io_bind (io_bind (services_loop w soa [x] m) (services_loop w soa xs))
                      (services_loop w soa ys)"
    by (simp add: io_bind_assoc)
  also have "\<dots> = io_bind (services_loop w soa (x # xs) m) (services_loop w soa ys)"
    using services_loop_Cons [of w soa x xs m] by (simp del: services_loop.simps)
  finally show ?case .
qed

lemma mappings_loop_closed:
  "mappings_loop service refs m =
     (map (\<lambda>p. Log INFO ''Mapping branch %s to docker image %s''
                  [fst (insertion_of service p), snd (insertion_of service p)]) refs,
      Inr (m ++ map_of (rev (map (insertion_of service) refs))))"
proof (induction refs arbitrary: m)
  case Nil
  then show ?case by (simp add: ret_def)
next
  case (Cons p refs)
  obtain h b where p: "p = (h, b)" by (cases p)
  have ins: "insertion_of service (h, b) = (branch_alias_of service b, docker_image_of service h)"
    by (simp add: insertion_of_def)
  have 1: "m ++ map_of (rev (map (insertion_of service) ((h, b) # refs))) =
        m(branch_alias_of service b \<mapsto> docker_image_of service h) ++
          map_of (rev (map (insertion_of service) refs))"
    by (rule ext) (simp add: ins map_add_def split: option.splits)
  show ?case
    unfolding p 1 by (simp add: Cons.IH log_call_def ins) (rule ext, auto simp: map_add_def split: option.splits)
qed

lemma filter_tracked: "filter (\<lambda>(head, branch). PStr branch \<in> bs) refs = tracked_refs bs refs"
  by (simp add: tracked_refs_def case_prod_unfold)

lemma step_branches_raise:
  "get_branches_for_service w soa s = (t1, Inl e) \<Longrightarrow>
   services_loop w soa [s] m = (examining s # t1, Inl e)"
  by (simp add: log_call_def examining_def)

lemma step_no_branches:
  "get_branches_for_service w soa s = (t1, Inr {}) \<Longrightarrow>
   services_loop w soa [s] m =
     (examining s # t1 @ [Log INFO ''Service %s has no branches.'' [s]], Inr m)"
  by (simp add: log_call_def examining_def ret_def)

lemma step_remote_raise:
  "get_branches_for_service w soa s = (t1, Inr bs) \<Longrightarrow> bs \<noteq> {} \<Longrightarrow>
   get_remote_branches_for_service w s = (t2, Inl e) \<Longrightarrow>
   services_loop w soa [s] m = (examining s # t1 @ t2, Inl e)"
  by (simp add: log_call_def examining_def)

lemma step_mapped:
  "get_branches_for_service w soa s = (t1, Inr bs) \<Longrightarrow> bs \<noteq> {} \<Longrightarrow>
   get_remote_branches_for_service w s = (t2, Inr refs) \<Longrightarrow>
   services_loop w soa [s] m =
     (examining s # t1 @ t2 @ mapping_logs s (tracked_refs bs refs),
      Inr (m ++ map_of (rev (map (insertion_of s) (tracked_refs bs refs)))))"
  by (simp add: log_call_def examining_def ret_def filter_tracked mappings_loop_closed
      mapping_logs_def)

lemma logged_insertions_append:
  "logged_insertions (t @ u) = logged_insertions t @ logged_insertions u"
  by (induction t rule: logged_insertions.induct) auto

lemma logged_insertions_mapping_logs:
  "logged_insertions (mapping_logs s refs) = map (insertion_of s) refs"
  by (induction refs) (auto simp: mapping_logs_def)

lemma logged_insertions_reads:
  "logged_insertions (map Read_service_information ps) = []"
  by (induction ps) auto

lemma service_files_loop_trace:
  "\<exists>ps. fst (service_files_loop w d files vb) = map Read_service_information ps"
proof (induction files arbitrary: vb)
  case Nil
  show ?case by (simp add: ret_def)
next
  case (Cons f files)
  show ?case
  proof (cases "str_contains ''marathon-'' f")
    case False
    with Cons show ?thesis by simp
  next
    case True
    obtain x where g: "get_branches_from_marathon_file w d f = ([Read_service_information (path_join d f)], x)"
      using get_branches_from_marathon_file_trace [of w d f]
      by (cases "get_branches_from_marathon_file w d f") auto
    show ?thesis
    proof (cases x)
      case (Inl e)
      with g True have "fst (service_files_loop w d (f # files) vb) =
                        map Read_service_information [path_join d f]" by simp
      then show ?thesis by blast
    next
      case (Inr bs)
      from Cons [of "vb \<union> bs"] obtain ps where
        "fst (service_files_loop w d files (vb \<union> bs)) = map Read_service_information ps" by blast
      with g True Inr have "fst (service_files_loop w d (f # files) vb) =
                        map Read_service_information (path_join d f # ps)" by simp
      then show ?thesis by blast
    qed
  qed
qed

lemma get_branches_for_service_trace:
  "\<exists>ps. fst (get_branches_for_service w soa s) =
         Listdir (path_join soa s) # map Read_service_information ps"
proof (cases "listdir w (path_join soa s)")
  case (Inl e)
  then have "fst (get_branches_for_service w soa s) =
             Listdir (path_join soa s) # map Read_service_information []"
    by (simp add: get_branches_for_service_def call_def)
  then show ?thesis by blast
next
  case (Inr files)
  obtain ps where "fst (service_files_loop w (path_join soa s) files {}) =
                   map Read_service_information ps"
    using service_files_loop_trace by blast
  with Inr have "fst (get_branches_for_service w soa s) =
             Listdir (path_join soa s) # map Read_service_information ps"
    by (simp add: get_branches_for_service_def call_def)
  then show ?thesis by blast
qed

lemma logged_insertions_branches:
  "get_branches_for_service w soa s = (t, r) \<Longrightarrow> logged_insertions t = []"
  using get_branches_for_service_trace [of w soa s]
  by (auto simp: logged_insertions_reads)

subsection \<open>The remote listing\<close>

lemma parse_branch_line_error: "parse_branch_line l = Inl e \<Longrightarrow> e = IndexError"
  by (auto simp: parse_branch_line_def exn_bind_def split: sum.splits dest: py_index_error)

lemma parse_branch_lines_error: "parse_branch_lines ls = Inl e \<Longrightarrow> e = IndexError"
  by (induction ls arbitrary: e)
    (auto simp: exn_bind_def split: sum.splits dest: parse_branch_line_error)

lemma remote_git_error:
  "ls_remote w [''-h'', get_git_url s] = Inl GitCommandError \<Longrightarrow>
   get_remote_branches_for_service w s =
     ([Ls_remote [''-h'', get_git_url s],
       Log WARNING ''Service %s has branches, but the remote git repo is not named %s'' [s, s]],
      Inr [])"
  by (simp add: get_remote_branches_for_service_def remote_branches_try_def call_def)

lemma remote_other_error:
  "ls_remote w [''-h'', get_git_url s] = Inl e \<Longrightarrow> e \<noteq> GitCommandError \<Longrightarrow>
   get_remote_branches_for_service w s = ([Ls_remote [''-h'', get_git_url s]], Inl e)"
  by (cases e) (simp_all add: get_remote_branches_for_service_def remote_branches_try_def call_def)

lemma remote_output:
  "ls_remote w [''-h'', get_git_url s] = Inr out \<Longrightarrow>
   get_remote_branches_for_service w s =
     ([Ls_remote [''-h'', get_git_url s]], parse_branch_lines (py_split out newline))"
proof (cases "parse_branch_lines (py_split out newline)")
  case (Inl e)
  assume "ls_remote w [''-h'', get_git_url s] = Inr out"
  with Inl parse_branch_lines_error [OF Inl] show ?thesis
    by (simp add: get_remote_branches_for_service_def remote_branches_try_def call_def lift_def)
next
  case (Inr refs)
  assume "ls_remote w [''-h'', get_git_url s] = Inr out"
  with Inr show ?thesis
    by (simp add: get_remote_branches_for_service_def remote_branches_try_def call_def lift_def)
qed

lemma logged_insertions_remote:
  "get_remote_branches_for_service w s = (t, r) \<Longrightarrow> logged_insertions t = []"
proof (cases "ls_remote w [''-h'', get_git_url s]")
  case (Inl e)
  assume a: "get_remote_branches_for_service w s = (t, r)"
  show ?thesis
  proof (cases "e = GitCommandError")
    case True
    with Inl a remote_git_error [of w s] show ?thesis by auto
  next
    case False
    with Inl a remote_other_error [of w s e] show ?thesis by auto
  qed
next
  case (Inr out)
  assume a: "get_remote_branches_for_service w s = (t, r)"
  with Inr remote_output [of w s out] show ?thesis by auto
qed

declare services_loop.simps [simp del]

subsection \<open>The insertions of a run\<close>

lemma step_insertions:
  assumes "services_loop w soa [s] m = (t, Inr m')"
  shows "m' = m ++ map_of (rev (logged_insertions t))"
proof -
  obtain t1 r1 where b: "get_branches_for_service w soa s = (t1, r1)"
    by (cases "get_branches_for_service w soa s") auto
  note l1 = logged_insertions_branches [OF b]
  show ?thesis
  proof (cases r1)
    case (Inl e)
    with b assms step_branches_raise [of w soa s t1 e m] show ?thesis by simp
  next
    case (Inr bs)
    show ?thesis
    proof (cases "bs = {}")
      case True
      with b Inr assms step_no_branches [of w soa s t1 m] l1 show ?thesis
        by (auto simp: logged_insertions_append examining_def)
    next
      case False
      obtain t2 r2 where r: "get_remote_branches_for_service w s = (t2, r2)"
        by (cases "get_remote_branches_for_service w s") auto
      note l2 = logged_insertions_remote [OF r]
      show ?thesis
      proof (cases r2)
        case (Inl e)
        with b Inr False r assms step_remote_raise [of w soa s t1 bs t2 e m] show ?thesis by simp
      next
        case (Inr refs)
        with b \<open>r1 = Inr bs\<close> False r assms step_mapped [of w soa s t1 bs t2 refs m] l1 l2
        show ?thesis
          by (auto simp: logged_insertions_append examining_def logged_insertions_mapping_logs)
      qed
    qed
  qed
qed

lemma io_bind_Inr_result:
  "io_bind m f = (t, Inr y) \<Longrightarrow>
   \<exists>t1 x t2. m = (t1, Inr x) \<and> f x = (t2, Inr y) \<and> t = t1 @ t2"
  by (auto simp: io_bind_def split: prod.splits sum.splits)

lemma services_loop_insertions:
  "services_loop w soa ss m = (t, Inr m') \<Longrightarrow> m' = m ++ map_of (rev (logged_insertions t))"
proof (induction ss arbitrary: m t)
  case Nil
  then show ?case by (simp add: ret_def services_loop.simps)
next
  case (Cons s ss)
  from Cons.prems have "io_bind (services_loop w soa [s] m) (services_loop w soa ss) = (t, Inr m')"
    by (simp only: services_loop_Cons [symmetric])
  from io_bind_Inr_result [OF this] obtain t1 m1 t2 where
    1: "services_loop w soa [s] m = (t1, Inr m1)" and
    2: "services_loop w soa ss m1 = (t2, Inr m')" and t: "t = t1 @ t2" by blast
  from step_insertions [OF 1] Cons.IH [OF 2] show ?case
    by (simp add: t logged_insertions_append)
qed

subsection \<open>Runs that raise, runs that return\<close>



lemma run_returns:
  assumes "get_branch_mappings w soa = (tr, Inr m)"
  shows "\<exists>tmp ss t1 t2. mkdtemp w = Inr tmp \<and> walk_dirs w soa = Inr ss \<and>
           services_loop w soa ss Map.empty = (t1, Inr m) \<and>
           tr = Mkdtemp # Walk soa # t1 @ t2 \<and> logged_insertions t2 = []"
proof -
  from assms obtain tmp where tmp: "mkdtemp w = Inr tmp"
    by (cases "mkdtemp w") (auto simp: get_branch_mappings_def call_def)
  from assms tmp obtain ss where ss: "walk_dirs w soa = Inr ss"
    by (cases "walk_dirs w soa")
      (auto simp: get_branch_mappings_def get_service_directories_def call_def)
  obtain t1 r1 where l: "services_loop w soa ss Map.empty = (t1, r1)"
    by (cases "services_loop w soa ss Map.empty") auto
  from assms tmp ss l obtain m1 where m1: "r1 = Inr m1"
    by (cases r1) (auto simp: get_branch_mappings_def get_service_directories_def call_def)
  obtain t2 r2 where r: "remove_tmp_dir w tmp = (t2, r2)"
    by (cases "remove_tmp_dir w tmp") auto
  have l2: "logged_insertions t2 = []"
    using r by (auto simp: remove_tmp_dir_def call_def split: sum.splits exn.splits)
  from assms tmp ss l m1 r have "m1 = m" "tr = Mkdtemp # Walk soa # t1 @ t2"
    by (cases r2; simp add: get_branch_mappings_def get_service_directories_def call_def ret_def)+
  with tmp ss l m1 l2 show ?thesis by blast
qed


subsection \<open>Lines that do not parse\<close>

lemma split_from_no_occurrence:
  "sep \<noteq> [] \<Longrightarrow> \<not> sublist sep s \<Longrightarrow> split_from sep cur s = [cur @ s]"
proof (induction s arbitrary: cur)
  case Nil
  then show ?case by simp
next
  case (Cons c cs)
  from Cons.prems(2) have "\<not> prefix sep (c # cs)" "\<not> sublist sep cs"
    by (auto simp: sublist_Cons_right)
  with Cons.IH [OF Cons.prems(1), of "cur @ [c]"] show ?case by simp
qed

lemma split_from_pieces:
  "x \<in> set (split_from sep cur s) \<Longrightarrow> sublist x (cur @ s)"
proof (induction sep cur s rule: split_from.induct)
  case (1 sep cur)
  then show ?case by simp
next
  case (2 sep cur c cs)
  show ?case
  proof (cases "sep \<noteq> [] \<and> prefix sep (c # cs)")
    case True
    with "2.prems" have "x = cur \<or> x \<in> set (split_from sep [] (drop (length sep - 1) cs))"
      by simp
    then show ?thesis
    proof
      assume "x = cur"
      then show ?thesis by (simp add: sublist_append_rightI)
    next
      assume "x \<in> set (split_from sep [] (drop (length sep - 1) cs))"
      from "2.IH"(1) [OF True this] have "sublist x (drop (length sep - 1) cs)" by simp
      moreover have "suffix (drop (length sep - 1) cs) (cur @ c # cs)"
        by (metis suffix_drop suffix_appendI suffix_ConsI append_Cons)
      ultimately show ?thesis
        by (meson sublist_order.order_trans suffix_imp_sublist)
    qed
  next
    case False
    with "2.prems" have "x \<in> set (split_from sep (cur @ [c]) cs)" by auto
    from "2.IH"(2) [OF False this] show ?thesis by simp
  qed
qed

lemma parse_branch_line_no_tab:
  assumes "CHR 0x09 \<notin> set line"
  shows "parse_branch_line line = Inl IndexError"
  using split_from_absent [OF assms, of "[]"]
  by (simp add: parse_branch_line_def py_split_def py_index_def exn_bind_def tab_def)

lemma parse_branch_line_no_heads:
  assumes "\<not> sublist ''refs/heads/'' line"
  shows "parse_branch_line line = Inl IndexError"
proof (cases "py_index (py_split line tab) 1")
  case (Inl e)
  with py_index_error [OF Inl] show ?thesis
    by (auto simp: parse_branch_line_def exn_bind_def split: sum.splits dest: py_index_error)
next
  case (Inr r)
  then have "r \<in> set (py_split line tab)"
    by (auto simp: py_index_def split: if_splits)
  then have "sublist r line"
    using split_from_pieces [of r tab "[]" line] by (simp add: py_split_def)
  with assms have "\<not> sublist ''refs/heads/'' r"
    using sublist_order.order_trans by blast
  then have "py_split r ''refs/heads/'' = [r]"
    using split_from_no_occurrence [of "''refs/heads/''" r "[]"] by (simp add: py_split_def)
  then have "py_index (py_split r ''refs/heads/'') 1 = Inl IndexError"
    by (simp add: py_index_def)
  with Inr show ?thesis
    by (cases "py_index (py_split line tab) 0")
      (auto simp: parse_branch_line_def exn_bind_def dest: py_index_error)
qed

lemma parse_branch_lines_bad_line:
  "line \<in> set ls \<Longrightarrow> parse_branch_line line = Inl IndexError \<Longrightarrow>
   parse_branch_lines ls = Inl IndexError"
proof (induction ls)
  case Nil
  then show ?case by simp
next
  case (Cons l ls)
  show ?case
  proof (cases "parse_branch_line l")
    case (Inl e)
    with parse_branch_line_error [OF Inl] show ?thesis by (simp add: exn_bind_def)
  next
    case (Inr p)
    with Cons have "parse_branch_lines ls = Inl IndexError" by auto
    with Inr show ?thesis by (simp add: exn_bind_def)
  qed
qed

lemma loop_reaches_raising_step:
  assumes "services_loop w soa pre m = (t0, Inr m1)"
    and "services_loop w soa [s] m1 = (t1, Inl e)"
  shows "services_loop w soa (pre @ s # post) m = (t0 @ t1, Inl e)"
  using assms
  by (simp add: services_loop_append [of w soa pre "s # post" m]
      services_loop_Cons [of w soa s post m1])

subsection \<open>The same world with other service directories\<close>

lemma marathon_file_walk [simp]:
  "get_branches_from_marathon_file (w\<lparr>walk_dirs := f\<rparr>) d n = get_branches_from_marathon_file w d n"
  by (simp add: get_branches_from_marathon_file_def)

lemma service_files_loop_walk [simp]:
  "service_files_loop (w\<lparr>walk_dirs := f\<rparr>) d files vb = service_files_loop w d files vb"
  by (induction files arbitrary: vb) simp_all

lemma branches_for_service_walk [simp]:
  "get_branches_for_service (w\<lparr>walk_dirs := f\<rparr>) soa s = get_branches_for_service w soa s"
  by (simp add: get_branches_for_service_def)

lemma remote_branches_walk [simp]:
  "get_remote_branches_for_service (w\<lparr>walk_dirs := f\<rparr>) s = get_remote_branches_for_service w s"
  by (simp add: get_remote_branches_for_service_def remote_branches_try_def)

lemma services_loop_walk [simp]:
  "services_loop (w\<lparr>walk_dirs := f\<rparr>) soa ss = services_loop w soa ss"
proof (induction ss)
  case Nil
  show ?case by (rule ext) (simp add: services_loop.simps)
next
  case (Cons s ss)
  show ?case by (rule ext) (simp add: services_loop.simps Cons cong: if_cong)
qed

lemma services_loop_Cons_fun:
  "services_loop w soa (s # rest) =
   (\<lambda>m. io_bind (services_loop w soa [s] m) (services_loop w soa rest))"
  by (rule ext) (rule services_loop_Cons)

lemma remove_tmp_dir_walk [simp]:
  "remove_tmp_dir (w\<lparr>walk_dirs := f\<rparr>) tmp = remove_tmp_dir w tmp"
  by (simp add: remove_tmp_dir_def)

lemma snd_io_bind:
  "snd (io_bind m f) = (case snd m of Inl e \<Rightarrow> Inl e | Inr x \<Rightarrow> snd (f x))"
  by (cases m) (auto simp: io_bind_def split: sum.splits prod.splits)

lemma run_result:
  "walk_dirs w soa = Inr ss \<Longrightarrow>
   snd (get_branch_mappings w soa) =
     (case mkdtemp w of
        Inl e \<Rightarrow> Inl e
      | Inr tmp \<Rightarrow>
          (case snd (services_loop w soa ss Map.empty) of
             Inl e \<Rightarrow> Inl e
           | Inr m \<Rightarrow> (case snd (remove_tmp_dir w tmp) of Inl e \<Rightarrow> Inl e | Inr _ \<Rightarrow> Inr m)))"
  by (simp add: get_branch_mappings_def get_service_directories_def call_def snd_io_bind ret_def
      split: sum.splits)

lemma failed_remote_step:
  assumes "ls_remote w [''-h'', get_git_url s] = Inl GitCommandError"
    and "get_branches_for_service w soa s = (t1, Inr bs)" and "bs \<noteq> {}"
  shows "services_loop w soa [s] m =
           (examining s # t1 @ [Ls_remote [''-h'', get_git_url s], repo_warning s], Inr m)"
  using step_mapped [OF assms(2,3) remote_git_error [OF assms(1)], of m]
  by (simp add: tracked_refs_def mapping_logs_def repo_warning_def)

lemma skipping_a_step:
  assumes "\<And>m. services_loop w soa [s] m = (ts, Inr m)"
  shows "snd (services_loop w soa (pre @ s # post) m) = snd (services_loop w soa (pre @ post) m)"
proof -
  have "services_loop w soa (pre @ s # post) m =
        io_bind (services_loop w soa pre m)
          (\<lambda>m1. io_bind (services_loop w soa [s] m1) (services_loop w soa post))"
    by (simp only: services_loop_append [of w soa pre "s # post"]
        services_loop_Cons_fun [of w soa s post])
  then show ?thesis
    by (simp add: snd_io_bind assms services_loop_append [of w soa pre post] split: sum.splits)
qed

subsection \<open>Where an insertion comes from\<close>

lemma step_insertion_origin:
  assumes "services_loop w soa [s] m = (t, r)" and "kv \<in> set (logged_insertions t)"
  shows "\<exists>t1 bs t2 refs p. get_branches_for_service w soa s = (t1, Inr bs) \<and>
           get_remote_branches_for_service w s = (t2, Inr refs) \<and>
           p \<in> set refs \<and> PStr (snd p) \<in> bs \<and> kv = insertion_of s p"
proof -
  obtain t1 r1 where b: "get_branches_for_service w soa s = (t1, r1)"
    by (cases "get_branches_for_service w soa s") auto
  note l1 = logged_insertions_branches [OF b]
  show ?thesis
  proof (cases r1)
    case (Inl e)
    with b assms step_branches_raise [of w soa s t1 e m] l1 show ?thesis
      by (auto simp: examining_def)
  next
    case (Inr bs)
    show ?thesis
    proof (cases "bs = {}")
      case True
      with b Inr assms step_no_branches [of w soa s t1 m] l1 show ?thesis
        by (auto simp: logged_insertions_append examining_def)
    next
      case False
      obtain t2 r2 where r: "get_remote_branches_for_service w s = (t2, r2)"
        by (cases "get_remote_branches_for_service w s") auto
      note l2 = logged_insertions_remote [OF r]
      show ?thesis
      proof (cases r2)
        case (Inl e)
        with b Inr False r assms step_remote_raise [of w soa s t1 bs t2 e m] l1 l2
        show ?thesis by (auto simp: logged_insertions_append examining_def)
      next
        case (Inr refs)
        with b \<open>r1 = Inr bs\<close> False r assms step_mapped [of w soa s t1 bs t2 refs m] l1 l2
        have "kv \<in> insertion_of s ` set (tracked_refs bs refs)"
          by (auto simp: logged_insertions_append examining_def logged_insertions_mapping_logs)
        then obtain p where "p \<in> set refs" "PStr (snd p) \<in> bs" "kv = insertion_of s p"
          by (auto simp: tracked_refs_def)
        with b \<open>r1 = Inr bs\<close> r Inr show ?thesis by blast
      qed
    qed
  qed
qed

lemma io_bind_result:
  "io_bind m f = (t, r) \<Longrightarrow>
   (\<exists>e. m = (t, Inl e) \<and> r = Inl e) \<or>
   (\<exists>t1 x t2. m = (t1, Inr x) \<and> f x = (t2, r) \<and> t = t1 @ t2)"
  by (auto simp: io_bind_def split: prod.splits sum.splits)

lemma loop_insertion_origin:
  "services_loop w soa ss m = (t, r) \<Longrightarrow> kv \<in> set (logged_insertions t) \<Longrightarrow>
   \<exists>s\<in>set ss. \<exists>t1 bs t2 refs p. get_branches_for_service w soa s = (t1, Inr bs) \<and>
           get_remote_branches_for_service w s = (t2, Inr refs) \<and>
           p \<in> set refs \<and> PStr (snd p) \<in> bs \<and> kv = insertion_of s p"
proof (induction ss arbitrary: m t)
  case Nil
  then show ?case by (simp add: services_loop.simps ret_def)
next
  case (Cons s ss)
  from Cons.prems(1) have "io_bind (services_loop w soa [s] m) (services_loop w soa ss) = (t, r)"
    by (simp only: services_loop_Cons [symmetric])
  from io_bind_result [OF this] show ?case
  proof
    assume "\<exists>e. services_loop w soa [s] m = (t, Inl e) \<and> r = Inl e"
    then obtain e where "services_loop w soa [s] m = (t, Inl e)" by blast
    from step_insertion_origin [OF this Cons.prems(2)] show ?thesis by simp
  next
    assume "\<exists>t1 x t2. services_loop w soa [s] m = (t1, Inr x) \<and>
              services_loop w soa ss x = (t2, r) \<and> t = t1 @ t2"
    then obtain t1 x t2 where 1: "services_loop w soa [s] m = (t1, Inr x)"
      and 2: "services_loop w soa ss x = (t2, r)" and t: "t = t1 @ t2" by blast
    from Cons.prems(2) t have "kv \<in> set (logged_insertions t1) \<or> kv \<in> set (logged_insertions t2)"
      by (simp add: logged_insertions_append)
    then show ?thesis
    proof
      assume "kv \<in> set (logged_insertions t1)"
      from step_insertion_origin [OF 1 this] show ?thesis by simp
    next
      assume "kv \<in> set (logged_insertions t2)"
      from Cons.IH [OF 2 this] show ?thesis by auto
    qed
  qed
qed

lemma branch_alias_inj: "branch_alias_of s b = branch_alias_of s b' \<Longrightarrow> b = b'"
  by (simp add: branch_alias_of_def)

lemma branch_alias_service:
  assumes "CHR '':'' \<notin> set s" "CHR '':'' \<notin> set s'"
    and "branch_alias_of s b = branch_alias_of s' b'"
  shows "s = s' \<and> b = b'"
proof -
  have "takeWhile (\<lambda>c. c \<noteq> CHR '':'') (s @ CHR '':'' # b) = s"
       "takeWhile (\<lambda>c. c \<noteq> CHR '':'') (s' @ CHR '':'' # b') = s'"
    using assms(1,2) by (auto simp: takeWhile_append2 takeWhile_tail)
  with assms(3) have "s = s'" by (simp add: branch_alias_of_def)
  with assms(3) show ?thesis by (simp add: branch_alias_of_def)
qed

lemma map_of_absent: "k \<notin> fst ` set xs \<Longrightarrow> map_of xs k = None"
  by (simp add: map_of_eq_None_iff)

subsection \<open>The example runs\<close>

lemma release_branches:
  "get_branches_for_service release_world ''/soa'' s =
     ([Listdir (path_join ''/soa'' s),
       Read_service_information (path_join (path_join ''/soa'' s) ''marathon-devc.yaml'')],
      Inr {PStr ''release''})"
  by (simp add: release_world_def get_branches_for_service_def
      get_branches_from_marathon_file_def call_def lift_def ret_def config_getitem_def
      target_branch_of_def exn_bind_def)

lemma release_remote_svc:
  "get_remote_branches_for_service release_world ''svc'' =
     ([Ls_remote [''-h'', ''git@git.yelpcorp.com:services/svc.git'']],
      Inr [(''abcdef0123456789'', ''release''), (''0123456789abcdef'', ''master'')])"
proof -
  have "ls_remote release_world [''-h'', get_git_url ''svc''] =
          Inr (''abcdef0123456789'' @ [CHR 0x09] @ ''refs/heads/release'' @ [CHR 0x0A] @
               ''0123456789abcdef'' @ [CHR 0x09] @ ''refs/heads/master'')"
    by (simp add: release_world_def get_git_url_def)
  from remote_output [OF this] show ?thesis
    by (simp add: get_git_url_def py_split_def newline_def tab_def parse_branch_line_def
        py_index_def exn_bind_def)
qed

lemma release_remote_drifted:
  "ls_remote release_world [''-h'', get_git_url ''drifted''] = Inl GitCommandError"
  by (simp add: release_world_def get_git_url_def)

lemma release_step_drifted:
  "services_loop release_world ''/soa'' [''drifted''] m =
     ([Log INFO ''Examining service %s'' [''drifted''],
       Listdir ''/soa/drifted'', Read_service_information ''/soa/drifted/marathon-devc.yaml'',
       Ls_remote [''-h'', ''git@git.yelpcorp.com:services/drifted.git''],
       repo_warning ''drifted''], Inr m)"
  using failed_remote_step [OF release_remote_drifted release_branches, of m]
  by (simp add: examining_def path_join_def get_git_url_def)

lemma release_step_svc:
  "services_loop release_world ''/soa'' [''svc''] m =
     ([Log INFO ''Examining service %s'' [''svc''],
       Listdir ''/soa/svc'', Read_service_information ''/soa/svc/marathon-devc.yaml'',
       Ls_remote [''-h'', ''git@git.yelpcorp.com:services/svc.git''],
       Log INFO ''Mapping branch %s to docker image %s'' [''svc:release'', ''svc:abcdef'']],
      Inr (m(''svc:release'' \<mapsto> ''svc:abcdef'')))"
  using step_mapped [OF release_branches _ release_remote_svc, of m]
  by (simp add: examining_def path_join_def tracked_refs_def mapping_logs_def insertion_of_def
      branch_alias_of_def docker_image_of_def)

lemma release_run:
  "get_branch_mappings release_world ''/soa'' =
     ([Mkdtemp, Walk ''/soa'',
       Log INFO ''Examining service %s'' [''drifted''],
       Listdir ''/soa/drifted'', Read_service_information ''/soa/drifted/marathon-devc.yaml'',
       Ls_remote [''-h'', ''git@git.yelpcorp.com:services/drifted.git''],
       repo_warning ''drifted'',
       Log INFO ''Examining service %s'' [''svc''],
       Listdir ''/soa/svc'', Read_service_information ''/soa/svc/marathon-devc.yaml'',
       Ls_remote [''-h'', ''git@git.yelpcorp.com:services/svc.git''],
       Log INFO ''Mapping branch %s to docker image %s'' [''svc:release'', ''svc:abcdef''],
       Rmdir ''/tmp/tmpAbCdEf''],
      Inr [''svc:release'' \<mapsto> ''svc:abcdef''])"
proof -
  have m: "mkdtemp release_world = Inr ''/tmp/tmpAbCdEf''"
    "walk_dirs release_world ''/soa'' = Inr [''drifted'', ''svc'']"
    "rmdir release_world ''/tmp/tmpAbCdEf'' = Inr ()"
    by (simp_all add: release_world_def world0_def)
  have "services_loop release_world ''/soa'' [''drifted'', ''svc''] Map.empty =
          io_bind (services_loop release_world ''/soa'' [''drifted''] Map.empty)
            (services_loop release_world ''/soa'' [''svc''])"
    by (rule services_loop_Cons)
  then show ?thesis
    by (simp add: get_branch_mappings_def get_service_directories_def remove_tmp_dir_def
        call_def ret_def m release_step_drifted release_step_svc)
qed

lemma nested_branches:
  "get_branches_for_service nested_refs_world ''/soa'' ''svc'' =
     ([Listdir ''/soa/svc'', Read_service_information ''/soa/svc/marathon-devc.yaml''],
      Inr {PStr ''x/''})"
  by (simp add: nested_refs_world_def get_branches_for_service_def path_join_def
      get_branches_from_marathon_file_def call_def lift_def ret_def config_getitem_def
      target_branch_of_def exn_bind_def)

lemma nested_remote:
  "get_remote_branches_for_service nested_refs_world ''svc'' =
     ([Ls_remote [''-h'', ''git@git.yelpcorp.com:services/svc.git'']],
      Inr [(''111111aaaa'', ''x/''), (''222222bbbb'', ''x/'')])"
proof -
  have "ls_remote nested_refs_world [''-h'', get_git_url ''svc''] =
          Inr (''111111aaaa'' @ [CHR 0x09] @ ''refs/heads/x/refs/heads/y'' @ [CHR 0x0A] @
               ''222222bbbb'' @ [CHR 0x09] @ ''refs/heads/x/refs/heads/z'')"
    by (simp add: nested_refs_world_def)
  from remote_output [OF this] show ?thesis
    by (simp add: get_git_url_def py_split_def newline_def tab_def parse_branch_line_def
        py_index_def exn_bind_def)
qed

lemma nested_run:
  "get_branch_mappings nested_refs_world ''/soa'' =
     ([Mkdtemp, Walk ''/soa'',
       Log INFO ''Examining service %s'' [''svc''],
       Listdir ''/soa/svc'', Read_service_information ''/soa/svc/marathon-devc.yaml'',
       Ls_remote [''-h'', ''git@git.yelpcorp.com:services/svc.git''],
       Log INFO ''Mapping branch %s to docker image %s'' [''svc:x/'', ''svc:111111''],
       Log INFO ''Mapping branch %s to docker image %s'' [''svc:x/'', ''svc:222222''],
       Rmdir ''/tmp/tmpAbCdEf''],
      Inr [''svc:x/'' \<mapsto> ''svc:222222''])"
proof -
  have m: "mkdtemp nested_refs_world = Inr ''/tmp/tmpAbCdEf''"
    "walk_dirs nested_refs_world ''/soa'' = Inr [''svc'']"
    "rmdir nested_refs_world ''/tmp/tmpAbCdEf'' = Inr ()"
    by (simp_all add: nested_refs_world_def world0_def)
  have s: "services_loop nested_refs_world ''/soa'' [''svc''] Map.empty =
     ([Log INFO ''Examining service %s'' [''svc''],
       Listdir ''/soa/svc'', Read_service_information ''/soa/svc/marathon-devc.yaml'',
       Ls_remote [''-h'', ''git@git.yelpcorp.com:services/svc.git''],
       Log INFO ''Mapping branch %s to docker image %s'' [''svc:x/'', ''svc:111111''],
       Log INFO ''Mapping branch %s to docker image %s'' [''svc:x/'', ''svc:222222'']],
      Inr [''svc:x/'' \<mapsto> ''svc:222222''])"
    using step_mapped [OF nested_branches _ nested_remote, of Map.empty]
    by (simp add: examining_def tracked_refs_def mapping_logs_def insertion_of_def
        branch_alias_of_def docker_image_of_def)
  show ?thesis
    by (simp add: get_branch_mappings_def get_service_directories_def remove_tmp_dir_def
        call_def ret_def m s)
qed

lemma hyphen_branches:
  "get_branches_for_service hyphen_cluster_world ''/soa'' ''svc'' =
     ([Listdir ''/soa/svc'', Read_service_information ''/soa/svc/marathon-norcal-devc.yaml''],
      Inr {PStr ''norcal''})"
  by (simp add: hyphen_cluster_world_def get_branches_for_service_def eval_simps plain_config_def)

lemma hyphen_remote:
  "get_remote_branches_for_service hyphen_cluster_world ''svc'' =
     ([Ls_remote [''-h'', ''git@git.yelpcorp.com:services/svc.git'']],
      Inr [(''abcdef0123456789abcdef0123456789abcdef01'', ''norcal-devc'')])"
proof -
  have "ls_remote hyphen_cluster_world [''-h'', get_git_url ''svc''] =
          Inr (''abcdef0123456789abcdef0123456789abcdef01'' @ [CHR 0x09] @
               ''refs/heads/norcal-devc'')"
    by (simp add: hyphen_cluster_world_def)
  from remote_output [OF this] show ?thesis
    by (simp add: get_git_url_def py_split_def newline_def tab_def parse_branch_line_def
        py_index_def exn_bind_def)
qed

lemma hyphen_run:
  "get_branch_mappings hyphen_cluster_world ''/soa'' =
     ([Mkdtemp, Walk ''/soa'',
       Log INFO ''Examining service %s'' [''svc''],
       Listdir ''/soa/svc'', Read_service_information ''/soa/svc/marathon-norcal-devc.yaml'',
       Ls_remote [''-h'', ''git@git.yelpcorp.com:services/svc.git''],
       Rmdir ''/tmp/tmpAbCdEf''],
      Inr Map.empty)"
proof -
  have m: "mkdtemp hyphen_cluster_world = Inr ''/tmp/tmpAbCdEf''"
    "walk_dirs hyphen_cluster_world ''/soa'' = Inr [''svc'']"
    "rmdir hyphen_cluster_world ''/tmp/tmpAbCdEf'' = Inr ()"
    by (simp_all add: hyphen_cluster_world_def world0_def)
  have s: "services_loop hyphen_cluster_world ''/soa'' [''svc''] Map.empty =
     ([Log INFO ''Examining service %s'' [''svc''],
       Listdir ''/soa/svc'', Read_service_information ''/soa/svc/marathon-norcal-devc.yaml'',
       Ls_remote [''-h'', ''git@git.yelpcorp.com:services/svc.git'']],
      Inr Map.empty)"
    using step_mapped [OF hyphen_branches _ hyphen_remote, of Map.empty]
    by (simp add: examining_def tracked_refs_def mapping_logs_def)
  show ?thesis
    by (simp add: get_branch_mappings_def get_service_directories_def remove_tmp_dir_def
        call_def ret_def m s)
qed

lemma slashed_branches:
  "get_branches_for_service slashed_branch_world ''/soa'' ''svc'' =
     ([Listdir ''/soa/svc'', Read_service_information ''/soa/svc/marathon-devc.yaml''],
      Inr {PStr ''x/refs/heads/y''})"
  by (simp add: slashed_branch_world_def get_branches_for_service_def path_join_def
      get_branches_from_marathon_file_def call_def lift_def ret_def config_getitem_def
      target_branch_of_def exn_bind_def)

lemma slashed_remote:
  "get_remote_branches_for_service slashed_branch_world ''svc'' =
     ([Ls_remote [''-h'', ''git@git.yelpcorp.com:services/svc.git'']],
      Inr [(''1111112222333344445555666677778888999900'', ''x/'')])"
proof -
  have "ls_remote slashed_branch_world [''-h'', get_git_url ''svc''] =
          Inr (''1111112222333344445555666677778888999900'' @ [CHR 0x09] @
               ''refs/heads/x/refs/heads/y'')"
    by (simp add: slashed_branch_world_def)
  from remote_output [OF this] show ?thesis
    by (simp add: get_git_url_def py_split_def newline_def tab_def parse_branch_line_def
        py_index_def exn_bind_def)
qed

lemma slashed_run:
  "get_branch_mappings slashed_branch_world ''/soa'' =
     ([Mkdtemp, Walk ''/soa'',
       Log INFO ''Examining service %s'' [''svc''],
       Listdir ''/soa/svc'', Read_service_information ''/soa/svc/marathon-devc.yaml'',
       Ls_remote [''-h'', ''git@git.yelpcorp.com:services/svc.git''],
       Rmdir ''/tmp/tmpAbCdEf''],
      Inr Map.empty)"
proof -
  have m: "mkdtemp slashed_branch_world = Inr ''/tmp/tmpAbCdEf''"
    "walk_dirs slashed_branch_world ''/soa'' = Inr [''svc'']"
    "rmdir slashed_branch_world ''/tmp/tmpAbCdEf'' = Inr ()"
    by (simp_all add: slashed_branch_world_def world0_def)
  have s: "services_loop slashed_branch_world ''/soa'' [''svc''] Map.empty =
     ([Log INFO ''Examining service %s'' [''svc''],
       Listdir ''/soa/svc'', Read_service_information ''/soa/svc/marathon-devc.yaml'',
       Ls_remote [''-h'', ''git@git.yelpcorp.com:services/svc.git'']],
      Inr Map.empty)"
    using step_mapped [OF slashed_branches _ slashed_remote, of Map.empty]
    by (simp add: examining_def tracked_refs_def mapping_logs_def)
  show ?thesis
    by (simp add: get_branch_mappings_def get_service_directories_def remove_tmp_dir_def
        call_def ret_def m s)
qed

section \<open>Branches of one configuration file\<close>

text \<open>
  C4, where the code departs from it. get_branches_from_marathon_file takes
  \<open>filename.split('-')[1].split('.')[0]\<close> for the token of the file name. For
  marathon-devc.yaml, the example of its docstring, that is devc. For
  marathon-norcal-devc.yaml, whose token between the prefix \<open>marathon-\<close> and the extension
  is norcal-devc, it is norcal: an instance with neither \<open>branch\<close> nor
  \<open>docker_image\<close> makes the set of branches \<open>{norcal}\<close>, which does not hold
  norcal-devc, and in a run the branch norcal-devc of the remote gets no entry.
\<close>

theorem hyphenated_cluster_is_truncated:
  "filename_cluster ''marathon-devc.yaml'' = Inr ''devc'' \<and>
   filename_cluster ''marathon-norcal-devc.yaml'' = Inr ''norcal'' \<and>
   map_of plain_config ''main'' = Some [''instances'' \<mapsto> PInt 3] \<and>
   [''instances'' \<mapsto> PInt 3] ''branch'' = None \<and>
   [''instances'' \<mapsto> PInt 3] ''docker_image'' = None \<and>
   get_branches_from_marathon_file hyphen_cluster_world ''/soa/svc'' ''marathon-norcal-devc.yaml'' =
     ([Read_service_information ''/soa/svc/marathon-norcal-devc.yaml''], Inr {PStr ''norcal''}) \<and>
   PStr ''norcal-devc'' \<notin> {PStr ''norcal''} \<and>
   get_branches_for_service hyphen_cluster_world ''/soa'' ''svc'' =
     ([Listdir ''/soa/svc'', Read_service_information ''/soa/svc/marathon-norcal-devc.yaml''],
      Inr {PStr ''norcal''}) \<and>
   get_remote_branches_for_service hyphen_cluster_world ''svc'' =
     ([Ls_remote [''-h'', ''git@git.yelpcorp.com:services/svc.git'']],
      Inr [(''abcdef0123456789abcdef0123456789abcdef01'', ''norcal-devc'')]) \<and>
   snd (get_branch_mappings hyphen_cluster_world ''/soa'') = Inr Map.empty"
proof -
  have 1: "filename_cluster ''marathon-devc.yaml'' = Inr ''devc''"
    "filename_cluster ''marathon-norcal-devc.yaml'' = Inr ''norcal''"
    by (simp_all add: filename_cluster_def py_split_def py_index_def exn_bind_def)
  have 2: "map_of plain_config ''main'' = Some [''instances'' \<mapsto> PInt 3]"
    "[''instances'' \<mapsto> PInt 3] ''branch'' = None"
    "[''instances'' \<mapsto> PInt 3] ''docker_image'' = None"
    by (simp_all add: plain_config_def)
  have 3: "get_branches_from_marathon_file hyphen_cluster_world ''/soa/svc''
             ''marathon-norcal-devc.yaml'' =
     ([Read_service_information ''/soa/svc/marathon-norcal-devc.yaml''], Inr {PStr ''norcal''})"
    by (simp add: hyphen_cluster_world_def eval_simps plain_config_def)
  have 4: "PStr ''norcal-devc'' \<notin> {PStr ''norcal''}" by simp
  have 5: "snd (get_branch_mappings hyphen_cluster_world ''/soa'') = Inr Map.empty"
    by (simp add: hyphen_run)
  from 1 2 3 4 5 hyphen_branches hyphen_remote show ?thesis by simp
qed

text \<open>
  C5. An instance record with a \<open>docker_image\<close> key and no \<open>branch\<close> key leaves
  \<open>target_branch\<close> at None whatever the file is called, and the set of branches of the
  file is the one the file would give without that instance.
\<close>

theorem docker_image_instance_contributes_nothing:
  assumes "read_service_information w (path_join file_dir filename) = Inr cfg"
    and "map_of cfg instance = Some inst"
    and "inst ''docker_image'' \<noteq> None"
    and "inst ''branch'' = None"
  shows "target_branch_of filename inst = Inr PNone \<and>
         get_branches_from_marathon_file w file_dir filename =
         get_branches_from_marathon_file
           (with_config w (path_join file_dir filename) (without_instance instance cfg))
           file_dir filename"
proof -
  have t: "target_branch_of filename inst = Inr PNone"
    using assms(3,4) by (auto simp: target_branch_of_def)
  then have "contribution filename cfg instance = {}"
    using assms(2) by (auto simp: contribution_def)
  from silent_instance [OF assms(1) this] t show ?thesis by simp
qed

theorem docker_image_instance_contributes_nothing_witness:
  "read_service_information (with_config world0 ''/soa/svc/marathon-devc.yaml'' pinned_config)
     (path_join ''/soa/svc'' ''marathon-devc.yaml'') = Inr pinned_config \<and>
   map_of pinned_config ''main'' = Some [''docker_image'' \<mapsto> PStr ''services-paasta_test:v1''] \<and>
   [''docker_image'' \<mapsto> PStr ''services-paasta_test:v1''] ''docker_image'' \<noteq> None \<and>
   [''docker_image'' \<mapsto> PStr ''services-paasta_test:v1''] ''branch'' = None \<and>
   target_branch_of ''marathon-devc.yaml'' [''docker_image'' \<mapsto> PStr ''services-paasta_test:v1'']
     = Inr PNone \<and>
   get_branches_from_marathon_file
     (with_config world0 ''/soa/svc/marathon-devc.yaml'' pinned_config)
     ''/soa/svc'' ''marathon-devc.yaml'' =
   get_branches_from_marathon_file
     (with_config (with_config world0 ''/soa/svc/marathon-devc.yaml'' pinned_config)
        (path_join ''/soa/svc'' ''marathon-devc.yaml'') (without_instance ''main'' pinned_config))
     ''/soa/svc'' ''marathon-devc.yaml'' \<and>
   snd (get_branches_from_marathon_file
     (with_config world0 ''/soa/svc/marathon-devc.yaml'' pinned_config)
     ''/soa/svc'' ''marathon-devc.yaml'') = Inr {}"
proof -
  have 1: "read_service_information (with_config world0 ''/soa/svc/marathon-devc.yaml'' pinned_config)
     (path_join ''/soa/svc'' ''marathon-devc.yaml'') = Inr pinned_config"
    by (simp add: with_config_def path_join_def)
  have 2: "map_of pinned_config ''main'' = Some [''docker_image'' \<mapsto> PStr ''services-paasta_test:v1'']"
    by (simp add: pinned_config_def)
  have 3: "[''docker_image'' \<mapsto> PStr ''services-paasta_test:v1''] ''docker_image'' \<noteq> None"
    by simp
  have 4: "[''docker_image'' \<mapsto> PStr ''services-paasta_test:v1''] ''branch'' = None"
    by simp
  have 5: "snd (get_branches_from_marathon_file
     (with_config world0 ''/soa/svc/marathon-devc.yaml'' pinned_config)
     ''/soa/svc'' ''marathon-devc.yaml'') = Inr {}"
    by (simp add: eval_simps pinned_config_def)
  from docker_image_instance_contributes_nothing [OF 1 2 3 4] 1 2 3 4 5
  show ?thesis by blast
qed

text \<open>
  C8. An instance record whose \<open>branch\<close> key is present with a falsy value has that
  value as \<open>target_branch\<close>: the name of the file is not consulted, with or without a
  \<open>docker_image\<close> key, and the set of branches of the file is the one the file would
  give without that instance.
\<close>

theorem falsy_branch_contributes_nothing:
  assumes "read_service_information w (path_join file_dir filename) = Inr cfg"
    and "map_of cfg instance = Some inst"
    and "inst ''branch'' = Some v"
    and "\<not> truthy v"
  shows "target_branch_of filename inst = Inr v \<and>
         get_branches_from_marathon_file w file_dir filename =
         get_branches_from_marathon_file
           (with_config w (path_join file_dir filename) (without_instance instance cfg))
           file_dir filename"
proof -
  have t: "target_branch_of filename inst = Inr v"
    using assms(3) by (simp add: target_branch_of_def)
  then have "contribution filename cfg instance = {}"
    using assms(2,4) by (auto simp: contribution_def)
  from silent_instance [OF assms(1) this] t show ?thesis by simp
qed

theorem falsy_branch_contributes_nothing_witness:
  "read_service_information (with_config world0 ''/soa/svc/marathon-devc.yaml'' falsy_config)
     (path_join ''/soa/svc'' ''marathon-devc.yaml'') = Inr falsy_config \<and>
   map_of falsy_config ''main'' = Some [''branch'' \<mapsto> PStr ''''] \<and>
   [''branch'' \<mapsto> PStr ''''] ''branch'' = Some (PStr '''') \<and>
   [''branch'' \<mapsto> PStr ''''] ''docker_image'' = None \<and>
   \<not> truthy (PStr '''') \<and>
   filename_cluster ''marathon-devc.yaml'' = Inr ''devc'' \<and>
   target_branch_of ''marathon-devc.yaml'' [''branch'' \<mapsto> PStr ''''] = Inr (PStr '''') \<and>
   get_branches_from_marathon_file
     (with_config world0 ''/soa/svc/marathon-devc.yaml'' falsy_config)
     ''/soa/svc'' ''marathon-devc.yaml'' =
   get_branches_from_marathon_file
     (with_config (with_config world0 ''/soa/svc/marathon-devc.yaml'' falsy_config)
        (path_join ''/soa/svc'' ''marathon-devc.yaml'') (without_instance ''main'' falsy_config))
     ''/soa/svc'' ''marathon-devc.yaml'' \<and>
   snd (get_branches_from_marathon_file
     (with_config world0 ''/soa/svc/marathon-devc.yaml'' falsy_config)
     ''/soa/svc'' ''marathon-devc.yaml'') = Inr {}"
proof -
  have 1: "read_service_information (with_config world0 ''/soa/svc/marathon-devc.yaml'' falsy_config)
     (path_join ''/soa/svc'' ''marathon-devc.yaml'') = Inr falsy_config"
    by (simp add: with_config_def path_join_def)
  have 2: "map_of falsy_config ''main'' = Some [''branch'' \<mapsto> PStr '''']"
    by (simp add: falsy_config_def)
  have 3: "[''branch'' \<mapsto> PStr ''''] ''branch'' = Some (PStr '''')"
    by simp
  have 4: "\<not> truthy (PStr '''')"
    by simp
  have 5: "[''branch'' \<mapsto> PStr ''''] ''docker_image'' = None"
    by simp
  have 6: "filename_cluster ''marathon-devc.yaml'' = Inr ''devc''"
    by (simp add: eval_simps)
  have 7: "snd (get_branches_from_marathon_file
     (with_config world0 ''/soa/svc/marathon-devc.yaml'' falsy_config)
     ''/soa/svc'' ''marathon-devc.yaml'') = Inr {}"
    by (simp add: eval_simps falsy_config_def)
  from falsy_branch_contributes_nothing [OF 1 2 3 4] 1 2 3 4 5 6 7
  show ?thesis by blast
qed

section \<open>Branches of a service\<close>

text \<open>
  C10. get_branches_for_service reads exactly the files of the service directory whose
  name has \<open>marathon-\<close> as a substring, in listing order, and its result is the union
  of what those files give; a name need not start with \<open>marathon-\<close>. If a read raises,
  the files read so far are still an initial part of that list.
\<close>

theorem files_read_by_substring:
  assumes "listdir w (path_join soa_dir service) = Inr files"
    and "get_branches_for_service w soa_dir service = (tr, r)"
  shows "prefix (read_paths tr)
           (map (path_join (path_join soa_dir service)) (filter (sublist ''marathon-'') files)) \<and>
         (\<forall>bs. r = Inr bs \<longrightarrow>
            read_paths tr =
              map (path_join (path_join soa_dir service)) (filter (sublist ''marathon-'') files) \<and>
            bs = \<Union>{s. \<exists>f\<in>set files. sublist ''marathon-'' f \<and>
                     snd (get_branches_from_marathon_file w (path_join soa_dir service) f) = Inr s})"
proof -
  obtain t' where l: "service_files_loop w (path_join soa_dir service) files {} = (t', r)"
    and tr: "tr = Listdir (path_join soa_dir service) # t'"
    using assms
    by (cases "service_files_loop w (path_join soa_dir service) files {}")
      (auto simp: get_branches_for_service_def call_def)
  note reads = service_files_loop_reads [OF l]
  have sets: "{s. \<exists>f\<in>set (marathon_files files).
                 snd (get_branches_from_marathon_file w (path_join soa_dir service) f) = Inr s} =
              {s. \<exists>f\<in>set files. sublist ''marathon-'' f \<and>
                 snd (get_branches_from_marathon_file w (path_join soa_dir service) f) = Inr s}"
    by (auto simp: marathon_files_def)
  show ?thesis
  proof (intro conjI allI impI)
    show "prefix (read_paths tr)
           (map (path_join (path_join soa_dir service)) (filter (sublist ''marathon-'') files))"
      using reads by (simp add: tr marathon_files_def)
  next
    fix bs assume "r = Inr bs"
    then show "read_paths tr =
              map (path_join (path_join soa_dir service)) (filter (sublist ''marathon-'') files)"
      using reads by (simp add: tr marathon_files_def)
  next
    fix bs assume "r = Inr bs"
    with l have "service_files_loop w (path_join soa_dir service) files {} = (t', Inr bs)"
      by simp
    from service_files_loop_result [OF this]
    show "bs = \<Union>{s. \<exists>f\<in>set files. sublist ''marathon-'' f \<and>
                     snd (get_branches_from_marathon_file w (path_join soa_dir service) f) = Inr s}"
      unfolding sets by simp
  qed
qed

theorem files_read_by_substring_witness:
  "listdir two_files_world (path_join ''/soa'' ''svc'') =
     Inr [''not-a-marathon-devc.yaml'', ''README.md''] \<and>
   get_branches_for_service two_files_world ''/soa'' ''svc'' =
     ([Listdir ''/soa/svc'', Read_service_information ''/soa/svc/not-a-marathon-devc.yaml''],
      Inr {PStr ''a''}) \<and>
   \<not> prefix ''marathon-'' ''not-a-marathon-devc.yaml'' \<and>
   filter (sublist ''marathon-'') [''not-a-marathon-devc.yaml'', ''README.md''] =
     [''not-a-marathon-devc.yaml''] \<and>
   read_paths [Listdir ''/soa/svc'', Read_service_information ''/soa/svc/not-a-marathon-devc.yaml'']
     = map (path_join (path_join ''/soa'' ''svc''))
         (filter (sublist ''marathon-'') [''not-a-marathon-devc.yaml'', ''README.md''])"
proof -
  have 1: "listdir two_files_world (path_join ''/soa'' ''svc'') =
     Inr [''not-a-marathon-devc.yaml'', ''README.md'']"
    by (simp add: two_files_world_def)
  have 2: "get_branches_for_service two_files_world ''/soa'' ''svc'' =
     ([Listdir ''/soa/svc'', Read_service_information ''/soa/svc/not-a-marathon-devc.yaml''],
      Inr {PStr ''a''})"
    by (simp add: two_files_world_def get_branches_for_service_def eval_simps bare_config_def)
  have 3: "\<not> prefix ''marathon-'' ''not-a-marathon-devc.yaml''"
    by simp
  have 4: "filter (sublist ''marathon-'') [''not-a-marathon-devc.yaml'', ''README.md''] =
     [''not-a-marathon-devc.yaml'']"
    by (simp add: str_contains_sublist [symmetric])
  from files_read_by_substring [OF 1 2] 1 2 3 4 show ?thesis by simp
qed




section \<open>Remote branches of a service\<close>

text \<open>
  C1. When git ls-remote raises GitCommandError for a service with a non-empty set of
  branches, get_remote_branches_for_service logs the warning naming the service and returns
  the empty list; processing the service returns normally and leaves the mapping as it
  was; the outcome of the run, mapping or exception, is the outcome of the run over the
  other service directories alone; and a run that returns has logged the warning.
\<close>

theorem remote_failure_is_isolated:
  assumes "ls_remote w [''-h'', get_git_url service] = Inl GitCommandError"
    and "get_branches_for_service w soa_dir service = (t1, Inr bs)"
    and "bs \<noteq> {}"
    and "walk_dirs w soa_dir = Inr (pre @ service # post)"
  shows "get_remote_branches_for_service w service =
           ([Ls_remote [''-h'', get_git_url service], repo_warning service], Inr []) \<and>
         (\<forall>m. \<exists>t. services_loop w soa_dir [service] m = (t, Inr m) \<and> repo_warning service \<in> set t) \<and>
         snd (get_branch_mappings w soa_dir) =
           snd (get_branch_mappings (with_services w soa_dir (pre @ post)) soa_dir) \<and>
         (\<forall>tr m. get_branch_mappings w soa_dir = (tr, Inr m) \<longrightarrow> repo_warning service \<in> set tr)"
proof (intro conjI allI impI)
  show "get_remote_branches_for_service w service =
           ([Ls_remote [''-h'', get_git_url service], repo_warning service], Inr [])"
    using remote_git_error [OF assms(1)] by (simp add: repo_warning_def)
next
  fix m
  show "\<exists>t. services_loop w soa_dir [service] m = (t, Inr m) \<and> repo_warning service \<in> set t"
    using failed_remote_step [OF assms(1-3), of m] by simp
next
  let ?w = "with_services w soa_dir (pre @ post)"
  have a: "walk_dirs ?w soa_dir = Inr (pre @ post)"
    by (simp add: with_services_def)
  have b: "mkdtemp ?w = mkdtemp w" "\<And>tmp. remove_tmp_dir ?w tmp = remove_tmp_dir w tmp"
    "\<And>ss m. services_loop ?w soa_dir ss m = services_loop w soa_dir ss m"
    by (simp_all add: with_services_def)
  have "snd (services_loop w soa_dir (pre @ service # post) Map.empty) =
        snd (services_loop w soa_dir (pre @ post) Map.empty)"
    by (rule skipping_a_step) (rule failed_remote_step [OF assms(1-3)])
  then show "snd (get_branch_mappings w soa_dir) = snd (get_branch_mappings ?w soa_dir)"
    by (simp add: run_result [OF assms(4)] run_result [OF a] b cong: sum.case_cong)
next
  fix tr m
  assume "get_branch_mappings w soa_dir = (tr, Inr m)"
  from run_returns [OF this] assms(4) obtain t t2 where
    l: "services_loop w soa_dir (pre @ service # post) Map.empty = (t, Inr m)"
    and tr: "tr = Mkdtemp # Walk soa_dir # t @ t2" by auto
  from l have "io_bind (services_loop w soa_dir pre Map.empty)
          (\<lambda>m1. io_bind (services_loop w soa_dir [service] m1) (services_loop w soa_dir post))
        = (t, Inr m)"
    by (simp only: services_loop_append [of w soa_dir pre "service # post"]
        services_loop_Cons_fun [of w soa_dir service post])
  from io_bind_Inr_result [OF this] obtain ta m1 tb where
    "io_bind (services_loop w soa_dir [service] m1) (services_loop w soa_dir post) = (tb, Inr m)"
    and t: "t = ta @ tb" by blast
  from io_bind_Inr_result [OF this(1)] obtain tc m2 td where
    "services_loop w soa_dir [service] m1 = (tc, Inr m2)" and tb: "tb = tc @ td" by blast
  with failed_remote_step [OF assms(1-3), of m1] have "repo_warning service \<in> set tc" by simp
  then show "repo_warning service \<in> set tr" by (simp add: tr t tb)
qed

theorem remote_failure_is_isolated_witness:
  "ls_remote release_world [''-h'', get_git_url ''drifted''] = Inl GitCommandError \<and>
   get_branches_for_service release_world ''/soa'' ''drifted'' =
     ([Listdir ''/soa/drifted'', Read_service_information ''/soa/drifted/marathon-devc.yaml''],
      Inr {PStr ''release''}) \<and>
   {PStr ''release''} \<noteq> {} \<and>
   walk_dirs release_world ''/soa'' = Inr ([] @ ''drifted'' # [''svc'']) \<and>
   get_remote_branches_for_service release_world ''drifted'' =
     ([Ls_remote [''-h'', get_git_url ''drifted''], repo_warning ''drifted''], Inr []) \<and>
   snd (get_branch_mappings release_world ''/soa'') =
     snd (get_branch_mappings (with_services release_world ''/soa'' ([] @ [''svc''])) ''/soa'') \<and>
   snd (get_branch_mappings release_world ''/soa'') = Inr [''svc:release'' \<mapsto> ''svc:abcdef''] \<and>
   repo_warning ''drifted'' \<in> set (fst (get_branch_mappings release_world ''/soa''))"
proof -
  have 1: "ls_remote release_world [''-h'', get_git_url ''drifted''] = Inl GitCommandError"
    by (rule release_remote_drifted)
  have 2: "get_branches_for_service release_world ''/soa'' ''drifted'' =
     ([Listdir ''/soa/drifted'', Read_service_information ''/soa/drifted/marathon-devc.yaml''],
      Inr {PStr ''release''})"
    using release_branches [of "''drifted''"] by (simp add: path_join_def)
  have 3: "{PStr ''release''} \<noteq> {}" by simp
  have 4: "walk_dirs release_world ''/soa'' = Inr ([] @ ''drifted'' # [''svc''])"
    by (simp add: release_world_def)
  note t = remote_failure_is_isolated [OF 1 2 3 4]
  have 5: "snd (get_branch_mappings release_world ''/soa'') = Inr [''svc:release'' \<mapsto> ''svc:abcdef'']"
    by (simp add: release_run)
  have 6: "get_branch_mappings release_world ''/soa'' =
           (fst (get_branch_mappings release_world ''/soa''), Inr [''svc:release'' \<mapsto> ''svc:abcdef''])"
    by (simp add: release_run)
  from t [THEN conjunct1] t [THEN conjunct2, THEN conjunct2, THEN conjunct1]
    t [THEN conjunct2, THEN conjunct2, THEN conjunct2, rule_format, OF 6] 1 2 3 4 5
  show ?thesis by blast
qed

text \<open>
  C9. When git ls-remote succeeds and some line of its output has no tab, or has no
  \<open>refs/heads/\<close> in it, get_remote_branches_for_service raises IndexError: the handler
  is for GitCommandError only. Reached in a run (the services before it processed, the
  service with a non-empty set of branches), the run ends with that IndexError. The empty
  output of a remote without branches is such an input: its only line is empty.
\<close>

theorem malformed_listing_raises_index_error:
  assumes "ls_remote w [''-h'', get_git_url service] = Inr out"
    and "line \<in> set (py_split out newline)"
    and "CHR 0x09 \<notin> set line \<or> \<not> sublist ''refs/heads/'' line"
  shows "get_remote_branches_for_service w service =
           ([Ls_remote [''-h'', get_git_url service]], Inl IndexError) \<and>
         (\<forall>pre post t0 m1 t1 bs.
            mkdtemp w = Inr tmp \<and> walk_dirs w soa_dir = Inr (pre @ service # post) \<and>
            services_loop w soa_dir pre Map.empty = (t0, Inr m1) \<and>
            get_branches_for_service w soa_dir service = (t1, Inr bs) \<and> bs \<noteq> {} \<longrightarrow>
            snd (get_branch_mappings w soa_dir) = Inl IndexError)"
proof -
  have "parse_branch_line line = Inl IndexError"
    using assms(3) parse_branch_line_no_tab parse_branch_line_no_heads by blast
  from parse_branch_lines_bad_line [OF assms(2) this] remote_output [OF assms(1)]
  have r: "get_remote_branches_for_service w service =
           ([Ls_remote [''-h'', get_git_url service]], Inl IndexError)" by simp
  show ?thesis
  proof (intro conjI allI impI)
    show "get_remote_branches_for_service w service =
           ([Ls_remote [''-h'', get_git_url service]], Inl IndexError)" by (rule r)
  next
    fix pre post t0 m1 t1 bs
    assume h: "mkdtemp w = Inr tmp \<and> walk_dirs w soa_dir = Inr (pre @ service # post) \<and>
            services_loop w soa_dir pre Map.empty = (t0, Inr m1) \<and>
            get_branches_for_service w soa_dir service = (t1, Inr bs) \<and> bs \<noteq> {}"
    then have "services_loop w soa_dir [service] m1 =
                 (examining service # t1 @ [Ls_remote [''-h'', get_git_url service]], Inl IndexError)"
      using step_remote_raise [OF _ _ r] by blast
    with h have "services_loop w soa_dir (pre @ service # post) Map.empty =
                 (t0 @ examining service # t1 @ [Ls_remote [''-h'', get_git_url service]],
                  Inl IndexError)"
      using loop_reaches_raising_step by blast
    with h show "snd (get_branch_mappings w soa_dir) = Inl IndexError"
      by (simp add: get_branch_mappings_def get_service_directories_def call_def)
  qed
qed

theorem malformed_listing_raises_index_error_witness:
  "ls_remote empty_remote_world [''-h'', get_git_url ''svc''] = Inr [] \<and>
   [] \<in> set (py_split [] newline) \<and>
   CHR 0x09 \<notin> set [] \<and>
   mkdtemp empty_remote_world = Inr ''/tmp/tmpAbCdEf'' \<and>
   walk_dirs empty_remote_world ''/soa'' = Inr ([] @ ''svc'' # []) \<and>
   services_loop empty_remote_world ''/soa'' [] Map.empty = ([], Inr Map.empty) \<and>
   get_branches_for_service empty_remote_world ''/soa'' ''svc'' =
     ([Listdir ''/soa/svc'', Read_service_information ''/soa/svc/marathon-devc.yaml''],
      Inr {PStr ''devc''}) \<and>
   {PStr ''devc''} \<noteq> {} \<and>
   get_remote_branches_for_service empty_remote_world ''svc'' =
     ([Ls_remote [''-h'', get_git_url ''svc'']], Inl IndexError) \<and>
   snd (get_branch_mappings empty_remote_world ''/soa'') = Inl IndexError"
proof -
  have 1: "ls_remote empty_remote_world [''-h'', get_git_url ''svc''] = Inr []"
    by (simp add: empty_remote_world_def)
  have 2: "[] \<in> set (py_split [] newline)"
    by (simp add: py_split_def)
  have 3: "CHR 0x09 \<notin> set [] \<or> \<not> sublist ''refs/heads/'' []"
    by simp
  have 4: "mkdtemp empty_remote_world = Inr ''/tmp/tmpAbCdEf'' \<and>
   walk_dirs empty_remote_world ''/soa'' = Inr ([] @ ''svc'' # []) \<and>
   services_loop empty_remote_world ''/soa'' [] Map.empty = ([], Inr Map.empty) \<and>
   get_branches_for_service empty_remote_world ''/soa'' ''svc'' =
     ([Listdir ''/soa/svc'', Read_service_information ''/soa/svc/marathon-devc.yaml''],
      Inr {PStr ''devc''}) \<and>
   {PStr ''devc''} \<noteq> {}"
    by (simp add: empty_remote_world_def world0_def services_loop.simps ret_def
        get_branches_for_service_def eval_simps bare_config_def)
  note t = malformed_listing_raises_index_error [OF 1 2 3, of "''/tmp/tmpAbCdEf''" "''/soa''"]
  have 5: "CHR 0x09 \<notin> set []" by simp
  from t [THEN conjunct1] t [THEN conjunct2, rule_format, OF 4] 1 2 4 5
  show ?thesis by blast
qed

section \<open>The mapping of a run\<close>

text \<open>
  C2, where the code departs from it. The instance tracks the branch x/refs/heads/y and the
  remote has that branch. get_remote_branches_for_service takes
  \<open>split('refs/heads/')[1]\<close> of the ref for the branch name, which is \<open>x/\<close> here and
  not the name the line carries; the pair is filtered out, and the run returns a mapping
  without an entry for \<open>svc:x/refs/heads/y\<close>, where the claim has \<open>svc:111111\<close>.
\<close>

theorem slashed_branch_gets_no_entry:
  "ls_remote slashed_branch_world [''-h'', get_git_url ''svc''] =
     Inr (''1111112222333344445555666677778888999900'' @ tab @ ''refs/heads/x/refs/heads/y'') \<and>
   parse_branch_line
     (''1111112222333344445555666677778888999900'' @ tab @ ''refs/heads/x/refs/heads/y'') =
     Inr (''1111112222333344445555666677778888999900'', ''x/'') \<and>
   get_branches_for_service slashed_branch_world ''/soa'' ''svc'' =
     ([Listdir ''/soa/svc'', Read_service_information ''/soa/svc/marathon-devc.yaml''],
      Inr {PStr ''x/refs/heads/y''}) \<and>
   get_remote_branches_for_service slashed_branch_world ''svc'' =
     ([Ls_remote [''-h'', ''git@git.yelpcorp.com:services/svc.git'']],
      Inr [(''1111112222333344445555666677778888999900'', ''x/'')]) \<and>
   get_branch_mappings slashed_branch_world ''/soa'' =
     ([Mkdtemp, Walk ''/soa'',
       Log INFO ''Examining service %s'' [''svc''],
       Listdir ''/soa/svc'', Read_service_information ''/soa/svc/marathon-devc.yaml'',
       Ls_remote [''-h'', ''git@git.yelpcorp.com:services/svc.git''],
       Rmdir ''/tmp/tmpAbCdEf''],
      Inr Map.empty) \<and>
   (Map.empty :: string \<rightharpoonup> string) (''svc'' @ '':'' @ ''x/refs/heads/y'') \<noteq>
     Some (''svc'' @ '':'' @ take 6 ''1111112222333344445555666677778888999900'')"
proof -
  have 1: "ls_remote slashed_branch_world [''-h'', get_git_url ''svc''] =
     Inr (''1111112222333344445555666677778888999900'' @ tab @ ''refs/heads/x/refs/heads/y'')"
    by (simp add: slashed_branch_world_def tab_def)
  have 2: "parse_branch_line
     (''1111112222333344445555666677778888999900'' @ tab @ ''refs/heads/x/refs/heads/y'') =
     Inr (''1111112222333344445555666677778888999900'', ''x/'')"
    by (simp add: tab_def parse_branch_line_def py_split_def py_index_def exn_bind_def)
  from 1 2 slashed_branches slashed_remote slashed_run show ?thesis by simp
qed

text \<open>
  C6. A remote branch of a service whose name is not in the set of branches of the service:
  processing the service makes no insertion under \<open>service:branch_name\<close> and leaves
  the mapping at that key as it was. When no service directory name has a colon, the
  mapping returned by the run has no entry under that key.
\<close>

theorem untracked_branch_not_inserted:
  assumes "get_branches_for_service w soa_dir service = (t1, Inr bs)"
    and "get_remote_branches_for_service w service = (t2, Inr refs)"
    and "(head, branch_name) \<in> set refs"
    and "PStr branch_name \<notin> bs"
  shows "(\<forall>m tr r. services_loop w soa_dir [service] m = (tr, r) \<longrightarrow>
            branch_alias_of service branch_name \<notin> fst ` set (logged_insertions tr) \<and>
            (\<forall>m'. r = Inr m' \<longrightarrow>
               m' (branch_alias_of service branch_name) = m (branch_alias_of service branch_name))) \<and>
         (\<forall>tr m services.
            get_branch_mappings w soa_dir = (tr, Inr m) \<and>
            walk_dirs w soa_dir = Inr services \<and>
            CHR '':'' \<notin> set service \<and> CHR '':'' \<notin> set (concat services) \<longrightarrow>
            m (branch_alias_of service branch_name) = None)"
proof (intro conjI allI impI)
  fix m tr r
  assume s: "services_loop w soa_dir [service] m = (tr, r)"
  show n: "branch_alias_of service branch_name \<notin> fst ` set (logged_insertions tr)"
  proof
    assume "branch_alias_of service branch_name \<in> fst ` set (logged_insertions tr)"
    then obtain kv where kv: "kv \<in> set (logged_insertions tr)"
      and k: "fst kv = branch_alias_of service branch_name" by auto
    from step_insertion_origin [OF s kv] assms(1) obtain p where
      "PStr (snd p) \<in> bs" "kv = insertion_of service p" by auto
    with k have "PStr branch_name \<in> bs"
      by (auto simp: insertion_of_def dest: branch_alias_inj)
    with assms(4) show False by simp
  qed
  fix m'
  assume "r = Inr m'"
  with s step_insertions [of w soa_dir service m tr m'] n
  show "m' (branch_alias_of service branch_name) = m (branch_alias_of service branch_name)"
    by (simp add: map_add_def map_of_absent)
next
  fix tr m ss
  assume h: "get_branch_mappings w soa_dir = (tr, Inr m) \<and>
            walk_dirs w soa_dir = Inr ss \<and>
            CHR '':'' \<notin> set service \<and> CHR '':'' \<notin> set (concat ss)"
  then have ss: "walk_dirs w soa_dir = Inr ss" by simp
  from run_returns [of w soa_dir tr m] h obtain t1' where
    l: "services_loop w soa_dir ss Map.empty = (t1', Inr m)" by auto
  have "branch_alias_of service branch_name \<notin> fst ` set (logged_insertions t1')"
  proof
    assume "branch_alias_of service branch_name \<in> fst ` set (logged_insertions t1')"
    then obtain kv where kv: "kv \<in> set (logged_insertions t1')"
      and k: "fst kv = branch_alias_of service branch_name" by auto
    from loop_insertion_origin [OF l kv] obtain s ta bs' p where
      s: "s \<in> set ss" and b: "get_branches_for_service w soa_dir s = (ta, Inr bs')"
      and p: "PStr (snd p) \<in> bs'" "kv = insertion_of s p" by blast
    from h ss s have "CHR '':'' \<notin> set s" "CHR '':'' \<notin> set service" by auto
    from branch_alias_service [OF this, of "snd p" branch_name] k p(2)
    have "s = service" "snd p = branch_name" by (simp_all add: insertion_of_def)
    with b p(1) assms(1,4) show False by simp
  qed
  with services_loop_insertions [OF l]
  show "m (branch_alias_of service branch_name) = None"
    by (simp add: map_add_def map_of_absent)
qed

theorem untracked_branch_not_inserted_witness:
  "get_branches_for_service release_world ''/soa'' ''svc'' =
     ([Listdir ''/soa/svc'', Read_service_information ''/soa/svc/marathon-devc.yaml''],
      Inr {PStr ''release''}) \<and>
   get_remote_branches_for_service release_world ''svc'' =
     ([Ls_remote [''-h'', ''git@git.yelpcorp.com:services/svc.git'']],
      Inr [(''abcdef0123456789'', ''release''), (''0123456789abcdef'', ''master'')]) \<and>
   (''0123456789abcdef'', ''master'') \<in>
     set [(''abcdef0123456789'', ''release''), (''0123456789abcdef'', ''master'')] \<and>
   PStr ''master'' \<notin> {PStr ''release''} \<and>
   walk_dirs release_world ''/soa'' = Inr [''drifted'', ''svc''] \<and>
   CHR '':'' \<notin> set ''svc'' \<and> CHR '':'' \<notin> set (concat [''drifted'', ''svc'']) \<and>
   snd (get_branch_mappings release_world ''/soa'') = Inr [''svc:release'' \<mapsto> ''svc:abcdef''] \<and>
   branch_alias_of ''svc'' ''master'' = ''svc:master'' \<and>
   branch_alias_of ''svc'' ''master'' \<notin>
     fst ` set (logged_insertions (fst (services_loop release_world ''/soa'' [''svc''] Map.empty))) \<and>
   [''svc:release'' \<mapsto> ''svc:abcdef''] (branch_alias_of ''svc'' ''master'') = None"
proof -
  have 1: "get_branches_for_service release_world ''/soa'' ''svc'' =
     ([Listdir ''/soa/svc'', Read_service_information ''/soa/svc/marathon-devc.yaml''],
      Inr {PStr ''release''})"
    using release_branches [of "''svc''"] by (simp add: path_join_def)
  note 2 = release_remote_svc
  have 3: "(''0123456789abcdef'', ''master'') \<in>
     set [(''abcdef0123456789'', ''release''), (''0123456789abcdef'', ''master'')]" by simp
  have 4: "PStr ''master'' \<notin> {PStr ''release''}" by simp
  have 5: "walk_dirs release_world ''/soa'' = Inr [''drifted'', ''svc'']"
    by (simp add: release_world_def)
  have 6: "CHR '':'' \<notin> set ''svc''" "CHR '':'' \<notin> set (concat [''drifted'', ''svc''])"
    by simp_all
  have 7: "branch_alias_of ''svc'' ''master'' = ''svc:master''"
    by (simp add: branch_alias_of_def)
  have 8: "snd (get_branch_mappings release_world ''/soa'') = Inr [''svc:release'' \<mapsto> ''svc:abcdef'']"
    by (simp add: release_run)
  note t = untracked_branch_not_inserted [OF 1 2 3 4]
  have a: "branch_alias_of ''svc'' ''master'' \<notin>
     fst ` set (logged_insertions (fst (services_loop release_world ''/soa'' [''svc''] Map.empty)))"
    using t [THEN conjunct1, rule_format,
        of Map.empty "fst (services_loop release_world ''/soa'' [''svc''] Map.empty)"
           "snd (services_loop release_world ''/soa'' [''svc''] Map.empty)"]
    by simp
  have b: "[''svc:release'' \<mapsto> ''svc:abcdef''] (branch_alias_of ''svc'' ''master'') = None"
    using t [THEN conjunct2, rule_format, of _ "[''svc:release'' \<mapsto> ''svc:abcdef'']"
               "[''drifted'', ''svc'']"] release_run 5 6
    by blast
  from a b 1 2 3 4 5 6 7 8 show ?thesis by blast
qed

text \<open>
  C7. Each insertion into the mapping is logged just before it is made, so the logged
  pairs of a run are its insertions in order. The mapping returned is the one that gives
  every key the value of its last insertion: of two insertions under one key the later
  one stands, the other keys are as they would be without the later insertion, and the
  loop that inserts never raises.
\<close>

theorem last_write_wins:
  assumes "get_branch_mappings w soa_dir = (tr, Inr m)"
    and "logged_insertions tr = before @ (k, v1) # between @ (k, v2) # after"
    and "k \<notin> fst ` set after"
  shows "m = map_of (rev (logged_insertions tr)) \<and>
         m k = Some v2 \<and>
         (\<forall>k'. k' \<noteq> k \<longrightarrow> m k' = map_of (rev (before @ (k, v1) # between @ after)) k') \<and>
         (\<forall>service refs m0. \<exists>t m1. mappings_loop service refs m0 = (t, Inr m1))"
proof -
  from run_returns [OF assms(1)] obtain ss t1 t2 where
    l: "services_loop w soa_dir ss Map.empty = (t1, Inr m)"
    and tr: "tr = Mkdtemp # Walk soa_dir # t1 @ t2" and t2: "logged_insertions t2 = []"
    by blast
  have li: "logged_insertions tr = logged_insertions t1"
    by (simp add: tr t2 logged_insertions_append)
  have m: "m = map_of (rev (logged_insertions tr))"
    using services_loop_insertions [OF l] by (simp add: li)
  have a: "map_of (rev after) k = None"
    using assms(3) by (simp add: map_of_absent)
  have k: "m k = Some v2"
    unfolding m assms(2) using a by (simp add: map_add_def)
  have o: "m k' = map_of (rev (before @ (k, v1) # between @ after)) k'" if "k' \<noteq> k" for k'
    unfolding m assms(2) using that by (simp add: map_add_def split: option.splits)
  from m k o mappings_loop_closed show ?thesis by blast
qed

theorem last_write_wins_witness:
  "get_branch_mappings nested_refs_world ''/soa'' =
     ([Mkdtemp, Walk ''/soa'',
       Log INFO ''Examining service %s'' [''svc''],
       Listdir ''/soa/svc'', Read_service_information ''/soa/svc/marathon-devc.yaml'',
       Ls_remote [''-h'', ''git@git.yelpcorp.com:services/svc.git''],
       Log INFO ''Mapping branch %s to docker image %s'' [''svc:x/'', ''svc:111111''],
       Log INFO ''Mapping branch %s to docker image %s'' [''svc:x/'', ''svc:222222''],
       Rmdir ''/tmp/tmpAbCdEf''],
      Inr [''svc:x/'' \<mapsto> ''svc:222222'']) \<and>
   logged_insertions
     [Mkdtemp, Walk ''/soa'',
       Log INFO ''Examining service %s'' [''svc''],
       Listdir ''/soa/svc'', Read_service_information ''/soa/svc/marathon-devc.yaml'',
       Ls_remote [''-h'', ''git@git.yelpcorp.com:services/svc.git''],
       Log INFO ''Mapping branch %s to docker image %s'' [''svc:x/'', ''svc:111111''],
       Log INFO ''Mapping branch %s to docker image %s'' [''svc:x/'', ''svc:222222''],
       Rmdir ''/tmp/tmpAbCdEf''] =
     [] @ (''svc:x/'', ''svc:111111'') # [] @ (''svc:x/'', ''svc:222222'') # [] \<and>
   ''svc:x/'' \<notin> fst ` set [] \<and>
   [''svc:x/'' \<mapsto> ''svc:222222''] ''svc:x/'' = Some ''svc:222222'' \<and>
   [''svc:x/'' \<mapsto> ''svc:222222''] ''svc:y'' =
     map_of (rev ([] @ (''svc:x/'', ''svc:111111'') # [] @ [])) ''svc:y''"
proof -
  have 2: "logged_insertions
     [Mkdtemp, Walk ''/soa'',
       Log INFO ''Examining service %s'' [''svc''],
       Listdir ''/soa/svc'', Read_service_information ''/soa/svc/marathon-devc.yaml'',
       Ls_remote [''-h'', ''git@git.yelpcorp.com:services/svc.git''],
       Log INFO ''Mapping branch %s to docker image %s'' [''svc:x/'', ''svc:111111''],
       Log INFO ''Mapping branch %s to docker image %s'' [''svc:x/'', ''svc:222222''],
       Rmdir ''/tmp/tmpAbCdEf''] =
     [] @ (''svc:x/'', ''svc:111111'') # [] @ (''svc:x/'', ''svc:222222'') # []"
    by simp
  have 3: "''svc:x/'' \<notin> fst ` set []" by simp
  note t = last_write_wins [OF nested_run 2 3]
  have 4: "''svc:y'' \<noteq> ''svc:x/''" by simp
  from t [THEN conjunct2, THEN conjunct1]
    t [THEN conjunct2, THEN conjunct2, THEN conjunct1, rule_format, OF 4] nested_run 2 3
  show ?thesis by blast
qed

end
